theory Spec2Isabelle
  imports Main "HOL-Library.Word" "HOL-Library.Sublist" "HOL-Library.AList"
begin

unbundle bit_operations_syntax

section \<open>Data model of \<^verbatim>\<open>src/TranslucentTB/main.cpp\<close>\<close>

text \<open>
  Window and monitor handles (\<^verbatim>\<open>HWND\<close>, \<^verbatim>\<open>HMONITOR\<close>) are opaque values compared
  by equality; the \<^verbatim>\<open>Window\<close> wrapper converts to its \<^verbatim>\<open>HWND\<close>. Wide strings are
  lists of characters.
\<close>

type_synonym hwnd = nat
type_synonym hmonitor = nat
type_synonym wstring = string

datatype TASKBARSTATE = Normal | WindowMaximised | StartMenuOpen

text \<open>
  Modelled from the spec: the enumeration \<^verbatim>\<open>swca::ACCENT\<close> is declared in
  \<^verbatim>\<open>swcadata.hpp\<close>, which is not among the sources. \<^verbatim>\<open>main.cpp\<close> names
  \<^verbatim>\<open>ACCENT_NORMAL\<close> and \<^verbatim>\<open>ACCENT_ENABLE_FLUENT\<close>; the other three values are the
  spec's kinds Blur, OpaqueColor and Clear.
\<close>

datatype ACCENT =
    ACCENT_NORMAL
  | ACCENT_BLUR
  | ACCENT_OPAQUE_COLOR
  | ACCENT_CLEAR
  | ACCENT_ENABLE_FLUENT

text \<open>
  \<^verbatim>\<open>swca::ACCENTPOLICY\<close>, built by \<^verbatim>\<open>SetWindowBlur\<close> from four initialisers:
  the accent, the flags, the colour and the animation id.
\<close>

record ACCENTPOLICY =
  nAccentState :: ACCENT
  nFlags :: int
  nColor :: "32 word"
  nAnimationId :: int

datatype wm = WM_THEMECHANGED | WM_LBUTTONUP

definition SW_HIDE :: nat where "SW_HIDE = 0"
definition SW_SHOWNORMAL :: nat where "SW_SHOWNORMAL = 1"
definition SW_MAXIMIZE :: nat where "SW_MAXIMIZE = 3"

datatype log_line =
    RefreshingHandles
  | CacheHitsReached int
  | BlacklistMatch hwnd bool

text \<open>What the program does to the outside world, in the order it does it.\<close>

datatype effect =
    SendMessage hwnd wm
  | SetWindowCompositionAttribute hwnd ACCENTPOLICY
  | ShowWindow hwnd nat
  | LogOutput log_line
  | ConfigSave

datatype EXITREASON = NewInstance | UserAction | UserActionNoSave

text \<open>
  Modelled from the spec: the enumeration \<^verbatim>\<open>Config::PEEK\<close> is declared in \<^verbatim>\<open>config.hpp\<close>,
  which is not among the sources. \<^verbatim>\<open>main.cpp\<close> names \<^verbatim>\<open>Enabled\<close> and \<^verbatim>\<open>Dynamic\<close>; the third
  value is the spec's mode that always hides the button.
\<close>

datatype PEEK = Enabled | Dynamic | Disabled

text \<open>
  The settings of the \<^verbatim>\<open>Config\<close> namespace (\<^verbatim>\<open>config.hpp\<close> is not among the
  sources): they are read by the functions below and are a parameter of each.
\<close>

record Config =
  TASKBAR_APPEARANCE :: ACCENT
  TASKBAR_COLOR :: "32 word"
  DYNAMIC_WS :: bool
  DYNAMIC_APPEARANCE :: ACCENT
  DYNAMIC_COLOR :: "32 word"
  DYNAMIC_START :: bool
  DYNAMIC_NORMAL_ON_PEEK :: bool
  PEEK :: PEEK
  CACHE_HIT_MAX :: int
  VERBOSE :: bool

record OPTIONS =
  blacklisted_classes :: "wstring list"
  blacklisted_filenames :: "wstring list"
  blacklisted_titles :: "wstring list"

text \<open>
  \<^verbatim>\<open>RUNTIMESTATE\<close>, without the three configuration paths. The registry
  \<^verbatim>\<open>taskbars\<close> is an \<^verbatim>\<open>unordered_map\<close>: an association list with one entry per
  key, whose order stands for the iteration order of the map.
\<close>

record RUNTIMESTATE =
  exit_reason :: EXITREASON
  main_taskbar :: hwnd
  taskbars :: "(hmonitor \<times> hwnd \<times> TASKBARSTATE) list"
  should_show_peek :: bool
  is_running :: bool
  fluent_available :: bool
  cache_hits :: int
  peek_active :: bool

text \<open>
  The whole mutable state: the two global structures, the function-local statics
  (\<^verbatim>\<open>is_normal\<close> of \<^verbatim>\<open>SetWindowBlur\<close>, \<^verbatim>\<open>cached_peek\<close> and \<^verbatim>\<open>cached_taskbar\<close> of
  \<^verbatim>\<open>TogglePeek\<close>, \<^verbatim>\<open>blacklist_cache\<close> of \<^verbatim>\<open>IsWindowBlacklisted\<close>, \<^verbatim>\<open>counter\<close> of
  \<^verbatim>\<open>SetTaskbarBlur\<close>) and the trace \<open>out\<close> of effects so far. \<^verbatim>\<open>cached_taskbar\<close> is
  initialised from \<^verbatim>\<open>run.main_taskbar\<close> when control first passes its declaration:
  \<open>None\<close> until then.
\<close>

record world =
  run :: RUNTIMESTATE
  opt :: OPTIONS
  is_normal :: "hwnd \<rightharpoonup> bool"
  cached_peek :: bool
  cached_taskbar :: "hwnd option"
  blacklist_cache :: "hwnd \<rightharpoonup> bool"
  counter :: int
  out :: "effect list"

text \<open>
  What the program reads from the host during one call: the Win32 queries of the
  \<^verbatim>\<open>Window\<close> class, \<^verbatim>\<open>EnumWindows\<close>, \<^verbatim>\<open>Util::IsStartVisible\<close>, whether
  \<^verbatim>\<open>user32::SetWindowCompositionAttribute\<close> was found, and the helper
  \<^verbatim>\<open>Util::ToLower\<close> (\<^verbatim>\<open>util.hpp\<close> is not among the sources).
\<close>

record platform =
  swca_available :: bool
  windows :: "hwnd list"
  visible :: "hwnd \<Rightarrow> bool"
  window_state :: "hwnd \<Rightarrow> nat"
  cloaked :: "hwnd \<Rightarrow> bool"
  on_current_desktop :: "hwnd \<Rightarrow> bool"
  monitor :: "hwnd \<Rightarrow> hmonitor"
  classname :: "hwnd \<Rightarrow> wstring"
  title :: "hwnd \<Rightarrow> wstring"
  filename :: "hwnd \<Rightarrow> wstring"
  ToLower :: "wstring \<Rightarrow> wstring"
  IsStartVisible :: bool
  start_window :: hwnd
  FindEx :: "hwnd \<Rightarrow> wstring \<Rightarrow> hwnd"
  primary_taskbar :: hwnd
  secondary_taskbars :: "hwnd list"

definition emit :: "effect \<Rightarrow> world \<Rightarrow> world" where
  "emit e w = w\<lparr>out := out w @ [e]\<rparr>"

section \<open>\<^verbatim>\<open>SetWindowBlur\<close>\<close>

text \<open>
  The third initialiser of the policy (line 86): red and blue change places, on
  \<^verbatim>\<open>uint32_t\<close>, with \<^verbatim>\<open>+\<close>.
\<close>

definition swap_color :: "32 word \<Rightarrow> 32 word" where
  "swap_color color =
     (color AND 0xFF00FF00) + drop_bit 16 (color AND 0x00FF0000) + push_bit 16 (color AND 0x000000FF)"

text \<open>Lines 101 to 105: a fluent accent with opacity byte 0 gets opacity 1.\<close>

definition fluent_fix :: "ACCENTPOLICY \<Rightarrow> ACCENTPOLICY" where
  "fluent_fix policy =
     (if nAccentState policy = ACCENT_ENABLE_FLUENT \<and> drop_bit 24 (nColor policy) = 0
      then policy\<lparr>nColor := push_bit 24 1 + (nColor policy AND 0x00FFFFFF)\<rparr>
      else policy)"

definition SetWindowBlur :: "platform \<Rightarrow> hwnd \<Rightarrow> ACCENT \<Rightarrow> 32 word \<Rightarrow> world \<Rightarrow> world" where
  "SetWindowBlur P window appearance color w =
     (if swca_available P then
        let policy = \<lparr>nAccentState = appearance, nFlags = 2,
                      nColor = swap_color color, nAnimationId = 0\<rparr>
        in if nAccentState policy = ACCENT_NORMAL then
             (if is_normal w window = None \<or> is_normal w window = Some False
              then (emit (SendMessage window WM_THEMECHANGED) w)
                     \<lparr>is_normal := (is_normal w)(window \<mapsto> True)\<rparr>
              else w)
           else
             (emit (SetWindowCompositionAttribute window (fluent_fix policy)) w)
               \<lparr>is_normal := (is_normal w)(window \<mapsto> False)\<rparr>
      else w)"

section \<open>Utilities\<close>

text \<open>
  \<^verbatim>\<open>RefreshHandles\<close>: the right-hand side of the first assignment stores the primary
  taskbar in \<^verbatim>\<open>run.main_taskbar\<close> before the left-hand side takes its monitor as key
  (the order of C++17); \<^verbatim>\<open>Window::Find\<close> and the \<^verbatim>\<open>FindEx\<close> loop over the secondary
  taskbars are the fields \<open>primary_taskbar\<close> and \<open>secondary_taskbars\<close>.
\<close>

definition RefreshHandles :: "Config \<Rightarrow> platform \<Rightarrow> world \<Rightarrow> world" where
  "RefreshHandles cfg P w =
     (let w1 = (if VERBOSE cfg then emit (LogOutput RefreshingHandles) w else w);
          main = primary_taskbar P;
          tbs = fold (\<lambda>secondtaskbar. AList.update (monitor P secondtaskbar) (secondtaskbar, Normal))
                  (secondary_taskbars P) [(monitor P main, (main, Normal))]
      in w1\<lparr>run := (run w1)\<lparr>main_taskbar := main, taskbars := tbs\<rparr>\<rparr>)"

definition TogglePeek :: "platform \<Rightarrow> bool \<Rightarrow> world \<Rightarrow> world" where
  "TogglePeek P status w =
     (let w1 = (case cached_taskbar w of
                  None \<Rightarrow> w\<lparr>cached_taskbar := Some (main_taskbar (run w))\<rparr>
                | Some t \<Rightarrow> w)
      in if status \<noteq> cached_peek w1 \<or> cached_taskbar w1 \<noteq> Some (main_taskbar (run w1)) then
           let tray = FindEx P (main_taskbar (run w1)) ''TrayNotifyWnd'';
               peek = FindEx P tray ''TrayShowDesktopButtonWClass'';
               overflow = FindEx P tray ''Button'';
               w2 = emit (ShowWindow peek (if status then SW_SHOWNORMAL else SW_HIDE)) w1;
               w3 = emit (SendMessage overflow WM_LBUTTONUP) w2;
               w4 = emit (SendMessage overflow WM_LBUTTONUP) w3
           in w4\<lparr>cached_peek := status, cached_taskbar := Some (main_taskbar (run w4))\<rparr>
         else w1)"

definition ClearBlacklistCache :: "Config \<Rightarrow> world \<Rightarrow> world" where
  "ClearBlacklistCache cfg w = w\<lparr>run := (run w)\<lparr>cache_hits := CACHE_HIT_MAX cfg + 1\<rparr>\<rparr>"

definition OutputBlacklistMatchToLog :: "Config \<Rightarrow> hwnd \<Rightarrow> bool \<Rightarrow> world \<Rightarrow> bool \<times> world" where
  "OutputBlacklistMatchToLog cfg window match w =
     (match, if VERBOSE cfg then emit (LogOutput (BlacklistMatch window match)) w else w)"

text \<open>
  \<^verbatim>\<open>std::wstring::find\<close> from position 0: the first index at which \<open>v\<close> occurs in the
  string, \<open>None\<close> for \<^verbatim>\<open>npos\<close>.
\<close>

fun wfind :: "wstring \<Rightarrow> wstring \<Rightarrow> nat option" where
  "wfind [] v = (if v = [] then Some 0 else None)"
| "wfind (c # cs) v = (if prefix v (c # cs) then Some 0 else map_option Suc (wfind cs v))"

text \<open>
  The three loops of \<^verbatim>\<open>IsWindowBlacklisted\<close> (lines 366 to 406), each returning at its
  first matching value; an empty rule set is skipped by its guard.
\<close>

definition blacklist_match :: "platform \<Rightarrow> OPTIONS \<Rightarrow> hwnd \<Rightarrow> bool" where
  "blacklist_match P op window =
     (if blacklisted_classes op \<noteq> [] \<and>
         list_ex (\<lambda>value. classname P window = value) (blacklisted_classes op) then True
      else if blacklisted_titles op \<noteq> [] \<and>
         list_ex (\<lambda>value. wfind (title P window) value \<noteq> None) (blacklisted_titles op) then True
      else if blacklisted_filenames op \<noteq> [] \<and>
         list_ex (\<lambda>value. ToLower P (filename P window) = value) (blacklisted_filenames op) then True
      else False)"

text \<open>
  \<^verbatim>\<open>run.cache_hits\<close> is an \<^verbatim>\<open>int\<close> that is incremented only while it is at most
  \<^verbatim>\<open>Config::CACHE_HIT_MAX\<close> and is otherwise set to 0 or to \<^verbatim>\<open>Config::CACHE_HIT_MAX + 1\<close>:
  for a bound below the largest \<^verbatim>\<open>int\<close> nothing overflows, and the count is an
  unbounded integer here.
\<close>

definition IsWindowBlacklisted :: "Config \<Rightarrow> platform \<Rightarrow> hwnd \<Rightarrow> world \<Rightarrow> bool \<times> world" where
  "IsWindowBlacklisted cfg P window w =
     (case (if cache_hits (run w) \<le> CACHE_HIT_MAX cfg then blacklist_cache w window else None) of
        Some cached \<Rightarrow> (cached, w\<lparr>run := (run w)\<lparr>cache_hits := cache_hits (run w) + 1\<rparr>\<rparr>)
      | None \<Rightarrow>
         (let w1 = (if cache_hits (run w) > CACHE_HIT_MAX cfg then
                      (if VERBOSE cfg then emit (LogOutput (CacheHitsReached (CACHE_HIT_MAX cfg))) w else w)
                        \<lparr>run := (run w)\<lparr>cache_hits := 0\<rparr>, blacklist_cache := Map.empty\<rparr>
                    else w);
              match = blacklist_match P (opt w1) window
          in OutputBlacklistMatchToLog cfg window match
               (w1\<lparr>blacklist_cache := (blacklist_cache w1)(window \<mapsto> match)\<rparr>)))"

section \<open>Main logic\<close>

datatype error = out_of_range

definition seq :: "error + 'a \<Rightarrow> ('a \<Rightarrow> error + 'b) \<Rightarrow> error + 'b" where
  "seq r f = (case r of Inl e \<Rightarrow> Inl e | Inr x \<Rightarrow> f x)"

text \<open>
  \<^verbatim>\<open>EnumWindowsProcess\<close>: the conjunction is evaluated from the left, so the blacklist
  is asked (and its cache changed) only for a visible, maximised, uncloaked window.
  \<^verbatim>\<open>run.taskbars.at\<close> throws \<^verbatim>\<open>std::out_of_range\<close> for a monitor without entry.
\<close>

definition EnumWindowsProcess :: "Config \<Rightarrow> platform \<Rightarrow> hwnd \<Rightarrow> world \<Rightarrow> error + world" where
  "EnumWindowsProcess cfg P hWnd w =
     (if visible P hWnd \<and> window_state P hWnd = SW_MAXIMIZE \<and> \<not> cloaked P hWnd then
        (case IsWindowBlacklisted cfg P hWnd w of (blacklisted, w1) \<Rightarrow>
           if \<not> blacklisted \<and> on_current_desktop P hWnd then
             (case map_of (taskbars (run w1)) (monitor P hWnd) of
                None \<Rightarrow> Inl out_of_range
              | Some taskbar \<Rightarrow>
                 let w2 = (if DYNAMIC_WS cfg then
                             w1\<lparr>run := (run w1)\<lparr>taskbars :=
                                  AList.update (monitor P hWnd) (fst taskbar, WindowMaximised)
                                    (taskbars (run w1))\<rparr>\<rparr>
                           else w1);
                     w3 = (if PEEK cfg = Dynamic \<and> fst taskbar = main_taskbar (run w2) then
                             w2\<lparr>run := (run w2)\<lparr>should_show_peek := True\<rparr>\<rparr>
                           else w2)
                 in Inr w3)
           else Inr w1)
      else Inr w)"

text \<open>\<^verbatim>\<open>EnumWindows\<close> calls the callback on every top-level window: it always returns true.\<close>

fun EnumWindows :: "Config \<Rightarrow> platform \<Rightarrow> hwnd list \<Rightarrow> world \<Rightarrow> error + world" where
  "EnumWindows cfg P [] w = Inr w"
| "EnumWindows cfg P (hWnd # rest) w = seq (EnumWindowsProcess cfg P hWnd w) (EnumWindows cfg P rest)"

definition HandleAeroPeekEvent :: "nat \<Rightarrow> world \<Rightarrow> world" where
  "HandleAeroPeekEvent event w = w\<lparr>run := (run w)\<lparr>peek_active := (event = 0x21)\<rparr>\<rparr>"

definition reset_states :: "(hmonitor \<times> hwnd \<times> TASKBARSTATE) list \<Rightarrow> (hmonitor \<times> hwnd \<times> TASKBARSTATE) list" where
  "reset_states tbs = map (\<lambda>(m, h, s). (m, h, Normal)) tbs"

text \<open>The body of \<^verbatim>\<open>if (counter >= 10)\<close> in \<^verbatim>\<open>SetTaskbarBlur\<close>, lines 503 to 541.\<close>

definition classify :: "Config \<Rightarrow> platform \<Rightarrow> world \<Rightarrow> error + world" where
  "classify cfg P w =
     (let w1 = w\<lparr>run := (run w)\<lparr>should_show_peek := (PEEK cfg = Enabled),
                                  taskbars := reset_states (taskbars (run w))\<rparr>\<rparr>
      in seq (if DYNAMIC_WS cfg \<or> PEEK cfg = Dynamic
              then EnumWindows cfg P (windows P) (w1\<lparr>counter := 0\<rparr>)
              else Inr w1)
          (\<lambda>w2.
            let w3 = TogglePeek P (should_show_peek (run w2)) w2
            in seq (if DYNAMIC_START cfg \<and> IsStartVisible P then
                      (case map_of (taskbars (run w3)) (monitor P (start_window P)) of
                         None \<Rightarrow> Inl out_of_range
                       | Some taskbar \<Rightarrow>
                          Inr (w3\<lparr>run := (run w3)\<lparr>taskbars :=
                                 AList.update (monitor P (start_window P)) (fst taskbar, StartMenuOpen)
                                   (taskbars (run w3))\<rparr>\<rparr>))
                    else Inr w3)
                (\<lambda>w4.
                  let w5 = (if DYNAMIC_WS cfg \<and> DYNAMIC_NORMAL_ON_PEEK cfg \<and> peek_active (run w4)
                            then w4\<lparr>run := (run w4)\<lparr>taskbars := reset_states (taskbars (run w4))\<rparr>\<rparr>
                            else w4)
                  in Inr (w5\<lparr>counter := 0\<rparr>))))"

text \<open>The \<^verbatim>\<open>switch\<close> of lines 546 to 557, for one entry of the registry.\<close>

fun apply_taskbar :: "Config \<Rightarrow> platform \<Rightarrow> hmonitor \<times> hwnd \<times> TASKBARSTATE \<Rightarrow> world \<Rightarrow> world" where
  "apply_taskbar cfg P (m, h, StartMenuOpen) w = SetWindowBlur P h ACCENT_NORMAL 0 w"
| "apply_taskbar cfg P (m, h, WindowMaximised) w =
     SetWindowBlur P h (DYNAMIC_APPEARANCE cfg) (DYNAMIC_COLOR cfg) w"
| "apply_taskbar cfg P (m, h, Normal) w =
     SetWindowBlur P h (TASKBAR_APPEARANCE cfg) (TASKBAR_COLOR cfg) w"

definition apply_taskbars :: "Config \<Rightarrow> platform \<Rightarrow> world \<Rightarrow> world" where
  "apply_taskbars cfg P w = fold (apply_taskbar cfg P) (taskbars (run w)) w"

definition SetTaskbarBlur :: "Config \<Rightarrow> platform \<Rightarrow> world \<Rightarrow> error + world" where
  "SetTaskbarBlur cfg P w =
     seq (if counter w \<ge> 10 then classify cfg P w else Inr w)
       (\<lambda>w1. let w2 = apply_taskbars cfg P w1 in Inr (w2\<lparr>counter := counter w2 + 1\<rparr>))"

section \<open>The message loop and the way out\<close>

text \<open>
  The callbacks registered by \<^verbatim>\<open>InitializeTray\<close> that touch the state above, and the
  hook \<^verbatim>\<open>HandleAeroPeekEvent\<close>. Reloading the blacklist carries the rule sets that
  \<^verbatim>\<open>ParseBlacklistFile\<close> read. The commands that change a setting act on \<^verbatim>\<open>Config\<close>,
  which every iteration receives anew, and the detached threads of the edit commands
  are left out: these are \<open>OtherMessage\<close>.
\<close>

datatype message =
    NEW_TTB_INSTANCE
  | WM_DISPLAYCHANGE
  | WM_TASKBARCREATED
  | WM_CLOSE
  | IDM_EXITWITHOUTSAVING
  | IDM_EXIT
  | IDM_CLEARBLACKLISTCACHE
  | IDM_RELOADDYNAMICBLACKLIST OPTIONS
  | AeroPeekEvent nat
  | OtherMessage

fun callback :: "Config \<Rightarrow> platform \<Rightarrow> message \<Rightarrow> world \<Rightarrow> world" where
  "callback cfg P NEW_TTB_INSTANCE w = w\<lparr>run := (run w)\<lparr>exit_reason := NewInstance, is_running := False\<rparr>\<rparr>"
| "callback cfg P WM_DISPLAYCHANGE w = RefreshHandles cfg P w"
| "callback cfg P WM_TASKBARCREATED w = RefreshHandles cfg P w"
| "callback cfg P WM_CLOSE w = w\<lparr>run := (run w)\<lparr>exit_reason := UserAction, is_running := False\<rparr>\<rparr>"
| "callback cfg P IDM_EXITWITHOUTSAVING w =
     w\<lparr>run := (run w)\<lparr>exit_reason := UserActionNoSave, is_running := False\<rparr>\<rparr>"
| "callback cfg P IDM_EXIT w = w\<lparr>run := (run w)\<lparr>exit_reason := UserAction, is_running := False\<rparr>\<rparr>"
| "callback cfg P IDM_CLEARBLACKLISTCACHE w = ClearBlacklistCache cfg w"
| "callback cfg P (IDM_RELOADDYNAMICBLACKLIST parsed) w = ClearBlacklistCache cfg (w\<lparr>opt := parsed\<rparr>)"
| "callback cfg P (AeroPeekEvent event) w = HandleAeroPeekEvent event w"
| "callback cfg P OtherMessage w = w"

text \<open>The four messages whose callback clears \<^verbatim>\<open>run.is_running\<close>.\<close>

fun signals_shutdown :: "message \<Rightarrow> bool" where
  "signals_shutdown NEW_TTB_INSTANCE = True"
| "signals_shutdown WM_CLOSE = True"
| "signals_shutdown IDM_EXITWITHOUTSAVING = True"
| "signals_shutdown IDM_EXIT = True"
| "signals_shutdown m = False"

text \<open>
  One iteration of the loop of \<^verbatim>\<open>wWinMain\<close> receives the callbacks that the message
  pump delivers, the settings and the state of the host at that moment.
\<close>

record tick_input =
  msgs :: "message list"
  cfg_of :: Config
  plat_of :: platform

text \<open>
  The loop over a finite prefix of its inputs. An exception that leaves
  \<^verbatim>\<open>SetTaskbarBlur\<close> is caught nowhere: the loop is over (\<open>Aborted\<close>). \<open>Left\<close> is the
  loop ended by \<^verbatim>\<open>run.is_running\<close>, \<open>Spinning\<close> the loop still running when the inputs
  given are used up.
\<close>

datatype loop_result = Aborted error | Left world | Spinning world

fun main_loop :: "tick_input list \<Rightarrow> world \<Rightarrow> loop_result" where
  "main_loop [] w = (if is_running (run w) then Spinning w else Left w)"
| "main_loop (i # rest) w =
     (if is_running (run w) then
        (case SetTaskbarBlur (cfg_of i) (plat_of i)
                (fold (callback (cfg_of i) (plat_of i)) (msgs i) w) of
           Inl e \<Rightarrow> Aborted e
         | Inr w1 \<Rightarrow> main_loop rest w1)
      else Left w)"


datatype exit_code = EXIT_FAILURE | EXIT_SUCCESS

text \<open>The handler \<^verbatim>\<open>Terminate\<close> set by \<^verbatim>\<open>std::set_terminate\<close>.\<close>

definition Terminate :: "world \<Rightarrow> exit_code" where
  "Terminate w = (if is_running (run w) then EXIT_FAILURE else EXIT_SUCCESS)"

text \<open>
  The state with which the program starts: the default member initialisers of
  \<^verbatim>\<open>RUNTIMESTATE\<close> (zero for the members without one) and the initial values of the
  function-local statics.
\<close>

definition initial_world :: world where
  "initial_world =
     \<lparr>run = \<lparr>exit_reason = UserAction, main_taskbar = 0, taskbars = [],
             should_show_peek = False, is_running = True, fluent_available = False,
             cache_hits = 0, peek_active = False\<rparr>,
      opt = \<lparr>blacklisted_classes = [], blacklisted_filenames = [], blacklisted_titles = []\<rparr>,
      is_normal = Map.empty, cached_peek = True, cached_taskbar = None,
      blacklist_cache = Map.empty, counter = 10, out = []\<rparr>"

section \<open>The accent of a state\<close>

text \<open>
  The accent and colour that the \<^verbatim>\<open>switch\<close> of \<^verbatim>\<open>SetTaskbarBlur\<close> passes on for a
  state (the table of section 4.5 of the specification), and the policy that
  \<^verbatim>\<open>SetWindowBlur\<close> makes of them.
\<close>

definition accent_of :: "Config \<Rightarrow> TASKBARSTATE \<Rightarrow> ACCENT \<times> 32 word" where
  "accent_of cfg s =
     (case s of
        StartMenuOpen \<Rightarrow> (ACCENT_NORMAL, 0)
      | WindowMaximised \<Rightarrow> (DYNAMIC_APPEARANCE cfg, DYNAMIC_COLOR cfg)
      | Normal \<Rightarrow> (TASKBAR_APPEARANCE cfg, TASKBAR_COLOR cfg))"

definition policy_of :: "Config \<Rightarrow> TASKBARSTATE \<Rightarrow> ACCENTPOLICY" where
  "policy_of cfg s =
     fluent_fix \<lparr>nAccentState = fst (accent_of cfg s), nFlags = 2,
                 nColor = swap_color (snd (accent_of cfg s)), nAnimationId = 0\<rparr>"

text \<open>The registry with which a pass ends, or the error that ended it.\<close>

definition registry_after :: "error + world \<Rightarrow> error + (hmonitor \<times> hwnd \<times> TASKBARSTATE) list" where
  "registry_after r = (case r of Inl e \<Rightarrow> Inl e | Inr w \<Rightarrow> Inr (taskbars (run w)))"

section \<open>Triggers and lookups\<close>

text \<open>
  The dynamic triggers of section 4.4 of the specification, among the windows in the
  order of their enumeration: a window that is visible, maximised and not cloaked, for
  which \<^verbatim>\<open>IsWindowBlacklisted\<close> answers no, and that is on the current desktop. The
  matcher is asked for the visible, maximised, uncloaked windows only, and each
  question may change its cache and hit count.
\<close>

fun triggers :: "Config \<Rightarrow> platform \<Rightarrow> hwnd list \<Rightarrow> world \<Rightarrow> hwnd list" where
  "triggers cfg P [] w = []"
| "triggers cfg P (h # hs) w =
     (if visible P h \<and> window_state P h = SW_MAXIMIZE \<and> \<not> cloaked P h then
        (case IsWindowBlacklisted cfg P h w of (blacklisted, w1) \<Rightarrow>
           (if \<not> blacklisted \<and> on_current_desktop P h then [h] else []) @ triggers cfg P hs w1)
      else triggers cfg P hs w)"

text \<open>
  The monitors that a full pass of \<^verbatim>\<open>SetTaskbarBlur\<close> looks up with
  \<^verbatim>\<open>run.taskbars.at\<close> have an entry: the monitor of every dynamic trigger, when the
  windows are enumerated, and the monitor of the Start window, when that is looked up.
\<close>

definition monitors_registered :: "Config \<Rightarrow> platform \<Rightarrow> world \<Rightarrow> bool" where
  "monitors_registered cfg P w \<longleftrightarrow>
     (DYNAMIC_WS cfg \<or> PEEK cfg = Dynamic \<longrightarrow>
        (\<forall>h \<in> set (triggers cfg P (windows P) w). monitor P h \<in> fst ` set (taskbars (run w))))
     \<and> (DYNAMIC_START cfg \<and> IsStartVisible P \<longrightarrow>
          monitor P (start_window P) \<in> fst ` set (taskbars (run w)))"

text \<open>
  The state in which a full pass leaves the taskbar of a monitor: \<^verbatim>\<open>Normal\<close> when the
  reset of line 533 applies; else \<^verbatim>\<open>StartMenuOpen\<close> on the monitor of the Start window,
  when that is looked up; else \<^verbatim>\<open>WindowMaximised\<close> on the monitor of a dynamic
  trigger, with \<^verbatim>\<open>DYNAMIC_WS\<close>; else \<^verbatim>\<open>Normal\<close>.
\<close>

definition state_after_pass :: "Config \<Rightarrow> platform \<Rightarrow> world \<Rightarrow> hmonitor \<Rightarrow> TASKBARSTATE" where
  "state_after_pass cfg P w m =
     (if DYNAMIC_WS cfg \<and> DYNAMIC_NORMAL_ON_PEEK cfg \<and> peek_active (run w) then Normal
      else if DYNAMIC_START cfg \<and> IsStartVisible P \<and> m = monitor P (start_window P) then StartMenuOpen
      else if DYNAMIC_WS cfg \<and> m \<in> monitor P ` set (triggers cfg P (windows P) w) then WindowMaximised
      else Normal)"

text \<open>A registry with the states replaced, monitor by monitor.\<close>

definition restate ::
  "(hmonitor \<Rightarrow> TASKBARSTATE \<Rightarrow> TASKBARSTATE) \<Rightarrow> (hmonitor \<times> hwnd \<times> TASKBARSTATE) list \<Rightarrow>
   (hmonitor \<times> hwnd \<times> TASKBARSTATE) list" where
  "restate f tbs = map (\<lambda>(m, h, s). (m, h, f m s)) tbs"

text \<open>
  Two states in which the matcher has the same cache, hit count and rule sets, and the
  state after the question that \<^verbatim>\<open>EnumWindowsProcess\<close> asks about a window, if it asks.
\<close>

definition matcher_eq :: "world \<Rightarrow> world \<Rightarrow> bool" where
  "matcher_eq w w' \<longleftrightarrow>
     blacklist_cache w' = blacklist_cache w \<and> cache_hits (run w') = cache_hits (run w) \<and> opt w' = opt w"

definition after_question :: "Config \<Rightarrow> platform \<Rightarrow> hwnd \<Rightarrow> world \<Rightarrow> world" where
  "after_question cfg P h w =
     (if visible P h \<and> window_state P h = SW_MAXIMIZE \<and> \<not> cloaked P h
      then snd (IsWindowBlacklisted cfg P h w) else w)"

text \<open>
  At every iteration that the loop reaches on these inputs, the pass looks up
  monitors of the registry only, or is a pass between two full ones.
\<close>

fun ticks_registered :: "tick_input list \<Rightarrow> world \<Rightarrow> bool" where
  "ticks_registered [] w = True"
| "ticks_registered (i # rest) w =
     (if is_running (run w) then
        (let w0 = fold (callback (cfg_of i) (plat_of i)) (msgs i) w in
           (counter w0 < 10 \<or> monitors_registered (cfg_of i) (plat_of i) w0) \<and>
           (case SetTaskbarBlur (cfg_of i) (plat_of i) w0 of
              Inl e \<Rightarrow> True
            | Inr w1 \<Rightarrow> ticks_registered rest w1))
      else True)"

text \<open>The loop still running when the inputs given are used up.\<close>

definition still_spinning :: "loop_result \<Rightarrow> bool" where
  "still_spinning r = (case r of Spinning w \<Rightarrow> is_running (run w) | Left w \<Rightarrow> False | Aborted e \<Rightarrow> False)"


text \<open>
  What a pass leaves alone: the rule sets and, of \<^verbatim>\<open>run\<close>, everything but the states of
  the taskbars, \<^verbatim>\<open>should_show_peek\<close> and \<^verbatim>\<open>cache_hits\<close>.
\<close>

definition same_core :: "world \<Rightarrow> world \<Rightarrow> bool" where
  "same_core w w' \<longleftrightarrow>
     is_running (run w') = is_running (run w) \<and> exit_reason (run w') = exit_reason (run w) \<and>
     peek_active (run w') = peek_active (run w) \<and> main_taskbar (run w') = main_taskbar (run w) \<and>
     fluent_available (run w') = fluent_available (run w) \<and>
     map fst (taskbars (run w')) = map fst (taskbars (run w)) \<and> opt w' = opt w"

section \<open>Sequences of calls\<close>

text \<open>
  The calls of \<^verbatim>\<open>SetWindowBlur\<close> made so far, each with its window, accent and colour,
  and the accent of the last call for a given window, if there was one.
\<close>

type_synonym accent_call = "hwnd \<times> ACCENT \<times> 32 word"

definition apply_calls :: "platform \<Rightarrow> accent_call list \<Rightarrow> world \<Rightarrow> world" where
  "apply_calls P calls w = fold (\<lambda>(h, a, c). SetWindowBlur P h a c) calls w"

fun last_applied :: "hwnd \<Rightarrow> accent_call list \<Rightarrow> ACCENT option" where
  "last_applied h [] = None"
| "last_applied h ((h', a, c) # calls) =
     (case last_applied h calls of Some a' \<Rightarrow> Some a' | None \<Rightarrow> if h' = h then Some a else None)"

text \<open>
  The calls that reach the blacklist cache: a query for a window on the host of that
  moment, \<^verbatim>\<open>ClearBlacklistCache\<close>, and a reload of the rule sets, which the tray
  callbacks follow with \<^verbatim>\<open>ClearBlacklistCache\<close>.
\<close>

datatype matcher_call =
    Call_IsWindowBlacklisted platform hwnd
  | Call_ClearBlacklistCache
  | Call_ReloadBlacklist OPTIONS

fun matcher_step :: "Config \<Rightarrow> matcher_call \<Rightarrow> world \<Rightarrow> world" where
  "matcher_step cfg (Call_IsWindowBlacklisted P window) w = snd (IsWindowBlacklisted cfg P window w)"
| "matcher_step cfg Call_ClearBlacklistCache w = ClearBlacklistCache cfg w"
| "matcher_step cfg (Call_ReloadBlacklist parsed) w = ClearBlacklistCache cfg (w\<lparr>opt := parsed\<rparr>)"

section \<open>The blacklist matcher in the words of the specification\<close>

text \<open>
  Section 4.2 of the specification: a class name equal to an entry, a title containing
  an entry, an executable name equal to an entry with both sides lower-cased; and the
  matcher over its pair of cache and hit count.
\<close>

definition rules_match_spec :: "platform \<Rightarrow> OPTIONS \<Rightarrow> hwnd \<Rightarrow> bool" where
  "rules_match_spec P op window \<longleftrightarrow>
     classname P window \<in> set (blacklisted_classes op)
     \<or> (\<exists>v \<in> set (blacklisted_titles op). sublist v (title P window))
     \<or> (\<exists>v \<in> set (blacklisted_filenames op). ToLower P (filename P window) = ToLower P v)"

definition is_blacklisted_spec ::
  "Config \<Rightarrow> platform \<Rightarrow> OPTIONS \<Rightarrow> hwnd \<Rightarrow> (hwnd \<rightharpoonup> bool) \<times> int \<Rightarrow> bool \<times> (hwnd \<rightharpoonup> bool) \<times> int" where
  "is_blacklisted_spec cfg P op window = (\<lambda>(cache, hits).
     if hits \<le> CACHE_HIT_MAX cfg \<and> cache window \<noteq> None then (the (cache window), cache, hits + 1)
     else
       let (cache1, hits1) = (if hits > CACHE_HIT_MAX cfg then (Map.empty, 0) else (cache, hits));
           answer = rules_match_spec P op window
       in (answer, cache1(window \<mapsto> answer), hits1))"

section \<open>A concrete host\<close>

text \<open>
  Two monitors: the primary taskbar 10 on monitor 1, a secondary taskbar 11 on
  monitor 2, the notification area 12 with the peek button 13 and the overflow button
  14, a maximised window 20 on monitor 1 and the Start window 30.
\<close>

definition lower_char :: "char \<Rightarrow> char" where
  "lower_char c = (let n = of_char c :: nat in if 65 \<le> n \<and> n \<le> 90 then char_of (n + 32) else c)"

definition example_lower :: "wstring \<Rightarrow> wstring" where
  "example_lower s = map lower_char s"

definition example_host :: platform where
  "example_host =
     \<lparr>swca_available = True,
      windows = [20, 21],
      visible = (\<lambda>h. True),
      window_state = (\<lambda>h. if h = 20 then SW_MAXIMIZE else SW_SHOWNORMAL),
      cloaked = (\<lambda>h. False),
      on_current_desktop = (\<lambda>h. True),
      monitor = (\<lambda>h. if h = 11 then 2 else 1),
      classname = (\<lambda>h. if h = 20 then ''Notepad'' else ''Progman''),
      title = (\<lambda>h. if h = 20 then ''notes - Notepad'' else []),
      filename = (\<lambda>h. if h = 20 then ''NOTEPAD.EXE'' else ''explorer.exe''),
      ToLower = example_lower,
      IsStartVisible = True,
      start_window = 30,
      FindEx = (\<lambda>parent cls.
         if parent = 10 \<and> cls = ''TrayNotifyWnd'' then 12
         else if parent = 12 \<and> cls = ''TrayShowDesktopButtonWClass'' then 13
         else if parent = 12 \<and> cls = ''Button'' then 14 else 0),
      primary_taskbar = 10,
      secondary_taskbars = [11]\<rparr>"

definition example_config :: Config where
  "example_config =
     \<lparr>TASKBAR_APPEARANCE = ACCENT_ENABLE_FLUENT, TASKBAR_COLOR = 0x00112233,
      DYNAMIC_WS = True, DYNAMIC_APPEARANCE = ACCENT_BLUR, DYNAMIC_COLOR = 0x80000000,
      DYNAMIC_START = True, DYNAMIC_NORMAL_ON_PEEK = True, PEEK = Dynamic,
      CACHE_HIT_MAX = 500, VERBOSE = False\<rparr>"

definition example_rules :: OPTIONS where
  "example_rules =
     \<lparr>blacklisted_classes = [''Shell_TrayWnd''],
      blacklisted_filenames = [''notepad.exe''],
      blacklisted_titles = [''Visual Studio'']\<rparr>"

text \<open>The state after start-up on this host.\<close>

definition example_world :: world where
  "example_world = RefreshHandles example_config example_host initial_world"

text \<open>The same state with the rule sets above loaded.\<close>

definition example_listed :: world where
  "example_listed = example_world\<lparr>opt := example_rules\<rparr>"

text \<open>A query answered from the rules, then a reload that empties the rule sets.\<close>

definition example_calls :: "matcher_call list" where
  "example_calls =
     [Call_IsWindowBlacklisted example_host 20,
      Call_ReloadBlacklist \<lparr>blacklisted_classes = [], blacklisted_filenames = [], blacklisted_titles = []\<rparr>]"

definition example_reloaded :: world where
  "example_reloaded = fold (matcher_step example_config) example_calls example_listed"

text \<open>The same state once the hook has reported the start of Aero Peek.\<close>

definition example_peeking :: world where
  "example_peeking = callback example_config example_host (AeroPeekEvent 0x21) example_world"

text \<open>
  The host with the maximised window 20 on a third monitor, which has no taskbar, and
  the host with the Start window 30 on a fourth one.
\<close>

definition example_host_far :: platform where
  "example_host_far = example_host\<lparr>monitor := (\<lambda>h. if h = 20 then 3 else if h = 11 then 2 else 1)\<rparr>"

definition example_host_start_far :: platform where
  "example_host_start_far =
     example_host\<lparr>monitor := (\<lambda>h. if h = 30 then 4 else if h = 11 then 2 else 1)\<rparr>"

definition example_far_tick :: tick_input where
  "example_far_tick = \<lparr>msgs = [], cfg_of = example_config, plat_of = example_host_far\<rparr>"

definition example_exit_tick :: tick_input where
  "example_exit_tick = \<lparr>msgs = [IDM_EXIT], cfg_of = example_config, plat_of = example_host\<rparr>"

text \<open>The host with the maximised window 20 on the second monitor.\<close>

definition example_host_second :: platform where
  "example_host_second = example_host\<lparr>monitor := (\<lambda>h. if h = 11 \<or> h = 20 then 2 else 1)\<rparr>"

text \<open>An iteration without message, and the state in which the loop is left on exit.\<close>

definition example_tick :: tick_input where
  "example_tick = \<lparr>msgs = [], cfg_of = example_config, plat_of = example_host\<rparr>"

definition example_left :: world where
  "example_left =
     (case main_loop [example_exit_tick] example_world of
        Left w \<Rightarrow> w | Aborted e \<Rightarrow> example_world | Spinning w \<Rightarrow> example_world)"


section \<open>The colour sent to the accent interface\<close>

text \<open>The registry of the concrete host: \<^verbatim>\<open>RefreshHandles\<close>, evaluated.\<close>

lemma example_world_eq:
  "example_world =
     initial_world\<lparr>run := (run initial_world)
       \<lparr>main_taskbar := 10, taskbars := [(1, 10, Normal), (2, 11, Normal)]\<rparr>\<rparr>"
  by (simp add: example_world_def RefreshHandles_def example_config_def example_host_def
      initial_world_def)

lemma mask_FF: "(0xFF :: 32 word) = mask 8"
  by (simp add: mask_eq_exp_minus_1)

lemma mask_FF0000: "(0xFF0000 :: 32 word) = push_bit 16 (mask 8)"
  by (simp add: mask_eq_exp_minus_1 push_bit_eq_mult)

lemma mask_FF00FF00: "(0xFF00FF00 :: 32 word) = push_bit 24 (mask 8) OR push_bit 8 (mask 8)"
  by (simp add: mask_eq_exp_minus_1 push_bit_eq_mult)

lemma mask_FFFFFF: "(0xFFFFFF :: 32 word) = mask 24"
  by (simp add: mask_eq_exp_minus_1)

lemma alpha_green_disjoint_red:
  "((c::32 word) AND 0xFF00FF00) AND drop_bit 16 (c AND 0x00FF0000) = 0"
  unfolding mask_FF0000 mask_FF00FF00
  by (rule bit_word_eqI) (auto simp add: bit_simps)

lemma sum_disjoint_blue:
  "(((c::32 word) AND 0xFF00FF00) + drop_bit 16 (c AND 0x00FF0000)) AND push_bit 16 (c AND 0xFF) = 0"
  unfolding disjunctive_add_eq_or [OF alpha_green_disjoint_red]
  unfolding mask_FF mask_FF0000 mask_FF00FF00
  by (rule bit_word_eqI) (auto simp add: bit_simps)

lemma swap_color_or:
  "swap_color c = (c AND 0xFF00FF00) OR drop_bit 16 (c AND 0x00FF0000) OR push_bit 16 (c AND 0x000000FF)"
proof -
  have "swap_color c =
      ((c AND 0xFF00FF00) + drop_bit 16 (c AND 0x00FF0000)) OR push_bit 16 (c AND 0x000000FF)"
    unfolding swap_color_def by (rule disjunctive_add_eq_or [OF sum_disjoint_blue])
  also have "(c AND 0xFF00FF00) + drop_bit 16 (c AND 0x00FF0000) =
      (c AND 0xFF00FF00) OR drop_bit 16 (c AND 0x00FF0000)"
    by (rule disjunctive_add_eq_or [OF alpha_green_disjoint_red])
  finally show ?thesis by (simp only: or.assoc)
qed

text \<open>Bit \<open>n\<close> of the swapped colour, byte by byte.\<close>

lemma bit_swap_color:
  "bit (swap_color c) n \<longleftrightarrow>
     (if n < 8 then bit c (n + 16) else if n < 16 then bit c n
      else if n < 24 then bit c (n - 16) else bit c n)"
  unfolding swap_color_or
  unfolding mask_FF mask_FF0000 mask_FF00FF00
  by (auto simp add: bit_simps add.commute dest: bit_imp_le_length)

lemma swap_color_involution: "swap_color (swap_color c) = c"
  by (rule bit_word_eqI) (auto simp add: bit_swap_color)

lemma swap_color_alpha: "drop_bit 24 (swap_color c) = drop_bit 24 c"
  by (rule bit_word_eqI) (auto simp add: bit_simps bit_swap_color)

lemma swap_color_green: "take_bit 8 (drop_bit 8 (swap_color c)) = take_bit 8 (drop_bit 8 c)"
  by (rule bit_word_eqI) (auto simp add: bit_simps bit_swap_color)

lemma swap_color_red: "take_bit 8 (drop_bit 16 (swap_color c)) = take_bit 8 c"
  by (rule bit_word_eqI) (auto simp add: bit_simps bit_swap_color)

lemma swap_color_blue: "take_bit 8 (swap_color c) = take_bit 8 (drop_bit 16 c)"
  by (rule bit_word_eqI) (auto simp add: bit_simps bit_swap_color add.commute)

lemma opacity_disjoint: "push_bit 24 (b::32 word) AND (x AND mask 24) = 0"
  by (rule bit_word_eqI) (auto simp add: bit_simps)

lemma opacity_of_sum: "drop_bit 24 (push_bit 24 b + ((x::32 word) AND mask 24)) = take_bit 8 b"
  unfolding disjunctive_add_eq_or [OF opacity_disjoint]
  by (rule bit_word_eqI) (auto simp add: bit_simps dest: bit_imp_le_length)

lemma rgb_of_sum: "(push_bit 24 b + ((x::32 word) AND mask 24)) AND mask 24 = x AND mask 24"
  unfolding disjunctive_add_eq_or [OF opacity_disjoint]
  by (rule bit_word_eqI) (auto simp add: bit_simps)

lemma promoted_opacity: "drop_bit 24 (push_bit 24 1 + ((x::32 word) AND 0x00FFFFFF)) = 1"
  using opacity_of_sum [of 1 x] unfolding mask_FFFFFF by simp

lemma promoted_rgb:
  "(push_bit 24 1 + ((x::32 word) AND 0x00FFFFFF)) AND 0x00FFFFFF = x AND 0x00FFFFFF"
  using rgb_of_sum [of 1 x] unfolding mask_FFFFFF by simp

text \<open>Everything \<^verbatim>\<open>SetWindowBlur\<close> sends out, for any arguments.\<close>

lemma out_SetWindowBlur:
  "out (SetWindowBlur P h a c w) = out w @
     (if \<not> swca_available P then []
      else if a = ACCENT_NORMAL then
        (if is_normal w h = Some True then [] else [SendMessage h WM_THEMECHANGED])
      else [SetWindowCompositionAttribute h
              (fluent_fix \<lparr>nAccentState = a, nFlags = 2, nColor = swap_color c, nAnimationId = 0\<rparr>)])"
  by (cases "is_normal w h") (auto simp add: SetWindowBlur_def emit_def)

lemma is_normal_SetWindowBlur:
  "is_normal (SetWindowBlur P h a c w) =
     (if swca_available P then (is_normal w)(h \<mapsto> (a = ACCENT_NORMAL)) else is_normal w)"
  by (cases "is_normal w h") (auto simp add: SetWindowBlur_def emit_def fun_upd_idem)

text \<open>
  Claim C8. For every 32-bit colour, the colour that \<^verbatim>\<open>SetWindowBlur\<close> puts into the
  policy is \<open>(in & 0xFF00FF00) | ((in & 0x00FF0000) >> 16) | ((in & 0x000000FF) << 16)\<close>:
  the sum written in the code equals the bitwise disjunction. The red and the blue byte
  change places, the opacity and the green byte stay, the swap undoes itself, and the
  policy submitted for an accent other than normal carries this colour, but for a fluent
  accent of opacity 0, whose opacity byte becomes 1.
\<close>

theorem swap_color_spec:
  "swap_color c = (c AND 0xFF00FF00) OR drop_bit 16 (c AND 0x00FF0000) OR push_bit 16 (c AND 0x000000FF)
   \<and> swap_color (swap_color c) = c
   \<and> take_bit 8 (drop_bit 16 (swap_color c)) = take_bit 8 c
   \<and> take_bit 8 (swap_color c) = take_bit 8 (drop_bit 16 c)
   \<and> take_bit 8 (drop_bit 8 (swap_color c)) = take_bit 8 (drop_bit 8 c)
   \<and> drop_bit 24 (swap_color c) = drop_bit 24 c
   \<and> out (SetWindowBlur P h a c w) = out w @
       (if \<not> swca_available P then []
        else if a = ACCENT_NORMAL then
          (if is_normal w h = Some True then [] else [SendMessage h WM_THEMECHANGED])
        else [SetWindowCompositionAttribute h
                \<lparr>nAccentState = a, nFlags = 2,
                 nColor = (if a = ACCENT_ENABLE_FLUENT \<and> drop_bit 24 c = 0
                           then push_bit 24 1 + (swap_color c AND 0x00FFFFFF) else swap_color c),
                 nAnimationId = 0\<rparr>])"
proof -
  have "fluent_fix \<lparr>nAccentState = a, nFlags = 2, nColor = swap_color c, nAnimationId = 0\<rparr> =
      \<lparr>nAccentState = a, nFlags = 2,
       nColor = (if a = ACCENT_ENABLE_FLUENT \<and> drop_bit 24 c = 0
                 then push_bit 24 1 + (swap_color c AND 0x00FFFFFF) else swap_color c),
       nAnimationId = 0\<rparr>"
    by (simp add: fluent_fix_def swap_color_alpha)
  then show ?thesis
    using swap_color_or [of c] swap_color_involution [of c] swap_color_red [of c]
      swap_color_blue [of c] swap_color_green [of c] swap_color_alpha [of c]
      out_SetWindowBlur [of P h a c w]
    by (simp only: simp_thms)
qed

theorem swap_color_spec_witness:
  "swap_color 0x80112233 = 0x80332211 \<and> swap_color (swap_color 0x80112233) = 0x80112233
   \<and> out (SetWindowBlur example_host 10 ACCENT_BLUR 0x80112233 example_world) =
     [SetWindowCompositionAttribute 10
        \<lparr>nAccentState = ACCENT_BLUR, nFlags = 2, nColor = 0x80332211, nAnimationId = 0\<rparr>]"
  using swap_color_spec [of "0x80112233" example_host 10 ACCENT_BLUR example_world]
  by (simp add: example_host_def example_world_eq initial_world_def swap_color_def)

section \<open>The opacity of a fluent accent\<close>

lemma fluent_fix_state: "nAccentState (fluent_fix p) = nAccentState p"
  by (simp add: fluent_fix_def)

lemma fluent_fix_opacity:
  "nAccentState p = ACCENT_ENABLE_FLUENT \<Longrightarrow> drop_bit 24 (nColor (fluent_fix p)) \<noteq> 0"
  using promoted_opacity [of "nColor p"] by (simp add: fluent_fix_def)

lemma fluent_fix_promotes:
  "nAccentState p = ACCENT_ENABLE_FLUENT \<Longrightarrow> drop_bit 24 (nColor p) = 0 \<Longrightarrow>
   drop_bit 24 (nColor (fluent_fix p)) = 1 \<and> nColor (fluent_fix p) AND 0x00FFFFFF = nColor p AND 0x00FFFFFF"
  using promoted_opacity [of "nColor p"] promoted_rgb [of "nColor p"] by (simp add: fluent_fix_def)

lemma fluent_fix_keeps:
  "nAccentState p \<noteq> ACCENT_ENABLE_FLUENT \<or> drop_bit 24 (nColor p) \<noteq> 0 \<Longrightarrow> fluent_fix p = p"
  by (auto simp add: fluent_fix_def)

text \<open>
  Claim C7. A fluent accent is never submitted with opacity byte 0. Whatever
  \<^verbatim>\<open>SetWindowBlur\<close> submits with the fluent accent has a nonzero opacity byte; for a
  colour whose opacity byte is 0 the submitted colour has opacity exactly 1 and the
  low 24 bits of the policy colour (the colour with red and blue exchanged) as they
  were; a colour with nonzero opacity is submitted as the exchange left it, with the
  opacity of the input.
\<close>

theorem fluent_never_transparent:
  "(let q = fluent_fix \<lparr>nAccentState = a, nFlags = 2, nColor = swap_color c, nAnimationId = 0\<rparr> in
     (swca_available P \<and> a \<noteq> ACCENT_NORMAL \<longrightarrow>
        out (SetWindowBlur P h a c w) = out w @ [SetWindowCompositionAttribute h q])
   \<and> (\<forall>h' p. SetWindowCompositionAttribute h' p \<in> set (drop (length (out w)) (out (SetWindowBlur P h a c w)))
         \<and> nAccentState p = ACCENT_ENABLE_FLUENT \<longrightarrow> drop_bit 24 (nColor p) \<noteq> 0)
   \<and> nAccentState q = a
   \<and> (a = ACCENT_ENABLE_FLUENT \<and> drop_bit 24 c = 0 \<longrightarrow>
        drop_bit 24 (nColor q) = 1 \<and> nColor q AND 0x00FFFFFF = swap_color c AND 0x00FFFFFF)
   \<and> (drop_bit 24 c \<noteq> 0 \<longrightarrow> nColor q = swap_color c \<and> drop_bit 24 (nColor q) = drop_bit 24 c))"
proof -
  let ?p = "\<lparr>nAccentState = a, nFlags = 2, nColor = swap_color c, nAnimationId = 0\<rparr>"
  have 1: "swca_available P \<and> a \<noteq> ACCENT_NORMAL \<longrightarrow>
        out (SetWindowBlur P h a c w) = out w @ [SetWindowCompositionAttribute h (fluent_fix ?p)]"
    by (simp add: out_SetWindowBlur)
  have 2: "\<forall>h' p. SetWindowCompositionAttribute h' p \<in> set (drop (length (out w)) (out (SetWindowBlur P h a c w)))
         \<and> nAccentState p = ACCENT_ENABLE_FLUENT \<longrightarrow> drop_bit 24 (nColor p) \<noteq> 0"
    using fluent_fix_opacity [of ?p] by (auto simp add: out_SetWindowBlur fluent_fix_state split: if_splits)
  have 3: "nAccentState (fluent_fix ?p) = a" by (simp add: fluent_fix_state)
  have 4: "a = ACCENT_ENABLE_FLUENT \<and> drop_bit 24 c = 0 \<longrightarrow>
        drop_bit 24 (nColor (fluent_fix ?p)) = 1 \<and> nColor (fluent_fix ?p) AND 0x00FFFFFF = swap_color c AND 0x00FFFFFF"
    using fluent_fix_promotes [of ?p] by (simp add: swap_color_alpha)
  have 5: "drop_bit 24 c \<noteq> 0 \<longrightarrow> nColor (fluent_fix ?p) = swap_color c \<and> drop_bit 24 (nColor (fluent_fix ?p)) = drop_bit 24 c"
    using fluent_fix_keeps [of ?p] by (simp add: swap_color_alpha)
  show ?thesis unfolding Let_def using 1 2 3 4 5 by blast
qed

theorem fluent_never_transparent_witness:
  "out (SetWindowBlur example_host 10 ACCENT_ENABLE_FLUENT 0x00112233 example_world) =
     [SetWindowCompositionAttribute 10
        \<lparr>nAccentState = ACCENT_ENABLE_FLUENT, nFlags = 2, nColor = 0x01332211, nAnimationId = 0\<rparr>]
   \<and> out (SetWindowBlur example_host 10 ACCENT_ENABLE_FLUENT 0x80112233 example_world) =
     [SetWindowCompositionAttribute 10
        \<lparr>nAccentState = ACCENT_ENABLE_FLUENT, nFlags = 2, nColor = 0x80332211, nAnimationId = 0\<rparr>]"
  using fluent_never_transparent [of ACCENT_ENABLE_FLUENT "0x00112233" example_host 10 example_world]
    fluent_never_transparent [of ACCENT_ENABLE_FLUENT "0x80112233" example_host 10 example_world]
  by (simp add: example_host_def example_world_eq initial_world_def fluent_fix_def swap_color_def)

section \<open>The theme reset of \<^verbatim>\<open>SetWindowBlur\<close>\<close>

lemma last_applied_snoc:
  "last_applied h (calls @ [(h', a, c)]) = (if h' = h then Some a else last_applied h calls)"
  by (induction calls) (auto split: option.splits)

lemma apply_calls_snoc:
  "apply_calls P (calls @ [(h, a, c)]) w = SetWindowBlur P h a c (apply_calls P calls w)"
  by (simp add: apply_calls_def)

text \<open>The memo of a window records whether its last call asked for the normal accent.\<close>

lemma is_normal_apply_calls:
  assumes "swca_available P" and "is_normal w0 = Map.empty"
  shows "is_normal (apply_calls P calls w0) h =
    map_option (\<lambda>a. a = ACCENT_NORMAL) (last_applied h calls)"
proof (induction calls rule: rev_induct)
  case Nil
  then show ?case using assms by (simp add: apply_calls_def)
next
  case (snoc x calls)
  obtain h' a c where x: "x = (h', a, c)" by (cases x)
  show ?case using snoc assms(1)
    by (simp add: x last_applied_snoc apply_calls_snoc is_normal_SetWindowBlur)
qed

text \<open>
  Claim C3. On a host with the accent entry point, starting with the empty memo of a
  fresh process and after any sequence of calls: a call with the normal accent for a
  window sends exactly one \<^verbatim>\<open>WM_THEMECHANGED\<close> to that window when the last call for
  it was not normal or there was none, and sends nothing when the last call for it was
  normal; a call with another accent sends no theme reset (it submits the policy), and
  being then the last call, it arms the next normal call again.
\<close>

theorem theme_reset_on_edge:
  assumes "swca_available P" and "is_normal w0 = Map.empty"
  shows "out (SetWindowBlur P h a c (apply_calls P calls w0)) = out (apply_calls P calls w0) @
     (if a = ACCENT_NORMAL then
        (if last_applied h calls = Some ACCENT_NORMAL then [] else [SendMessage h WM_THEMECHANGED])
      else [SetWindowCompositionAttribute h
             (fluent_fix \<lparr>nAccentState = a, nFlags = 2, nColor = swap_color c, nAnimationId = 0\<rparr>)])"
proof -
  have "is_normal (apply_calls P calls w0) h = Some True \<longleftrightarrow> last_applied h calls = Some ACCENT_NORMAL"
    using is_normal_apply_calls [OF assms, of calls h] by (cases "last_applied h calls") auto
  then show ?thesis using assms(1) by (simp add: out_SetWindowBlur)
qed

lemma example_host_available: "swca_available example_host"
  by (simp add: example_host_def)

lemma initial_world_memo: "is_normal initial_world = Map.empty"
  by (simp add: initial_world_def)

theorem theme_reset_on_edge_witness:
  "swca_available example_host \<and> is_normal initial_world = Map.empty
   \<and> out (SetWindowBlur example_host 10 ACCENT_NORMAL 0
         (apply_calls example_host [(10, ACCENT_BLUR, 0x80000000)] initial_world)) =
     [SetWindowCompositionAttribute 10
        \<lparr>nAccentState = ACCENT_BLUR, nFlags = 2, nColor = 0x80000000, nAnimationId = 0\<rparr>,
      SendMessage 10 WM_THEMECHANGED]
   \<and> out (SetWindowBlur example_host 10 ACCENT_NORMAL 0
         (apply_calls example_host
            [(10, ACCENT_BLUR, 0x80000000), (10, ACCENT_NORMAL, 0)] initial_world)) =
     [SetWindowCompositionAttribute 10
        \<lparr>nAccentState = ACCENT_BLUR, nFlags = 2, nColor = 0x80000000, nAnimationId = 0\<rparr>,
      SendMessage 10 WM_THEMECHANGED]"
  using theme_reset_on_edge [OF example_host_available initial_world_memo,
      of 10 ACCENT_NORMAL 0 "[(10, ACCENT_BLUR, 0x80000000)]"]
    theme_reset_on_edge [OF example_host_available initial_world_memo,
      of 10 ACCENT_NORMAL 0 "[(10, ACCENT_BLUR, 0x80000000), (10, ACCENT_NORMAL, 0)]"]
  by (simp add: apply_calls_def SetWindowBlur_def example_host_def initial_world_def emit_def
      swap_color_def fluent_fix_def)

section \<open>The peek button\<close>

lemma out_TogglePeek:
  "out (TogglePeek P status w) = out w @
     (if status \<noteq> cached_peek w \<or> (\<exists>t. cached_taskbar w = Some t \<and> t \<noteq> main_taskbar (run w)) then
        [ShowWindow (FindEx P (FindEx P (main_taskbar (run w)) ''TrayNotifyWnd'') ''TrayShowDesktopButtonWClass'')
           (if status then SW_SHOWNORMAL else SW_HIDE),
         SendMessage (FindEx P (FindEx P (main_taskbar (run w)) ''TrayNotifyWnd'') ''Button'') WM_LBUTTONUP,
         SendMessage (FindEx P (FindEx P (main_taskbar (run w)) ''TrayNotifyWnd'') ''Button'') WM_LBUTTONUP]
      else [])"
  by (cases "cached_taskbar w") (auto simp add: TogglePeek_def emit_def Let_def)

lemma cache_TogglePeek:
  "cached_peek (TogglePeek P status w) = status \<and>
   cached_taskbar (TogglePeek P status w) = Some (main_taskbar (run w))"
  by (cases "cached_taskbar w") (auto simp add: TogglePeek_def emit_def Let_def)

lemma frame_TogglePeek:
  "run (TogglePeek P status w) = run w \<and> opt (TogglePeek P status w) = opt w \<and>
   is_normal (TogglePeek P status w) = is_normal w \<and>
   blacklist_cache (TogglePeek P status w) = blacklist_cache w \<and>
   counter (TogglePeek P status w) = counter w"
  by (cases "cached_taskbar w") (auto simp add: TogglePeek_def emit_def Let_def)

text \<open>
  Claim C10. The cache of \<^verbatim>\<open>TogglePeek\<close> starts as (visible, the primary taskbar at
  the first call): \<^verbatim>\<open>cached_peek\<close> is true from the start and \<^verbatim>\<open>cached_taskbar\<close> takes
  \<^verbatim>\<open>run.main_taskbar\<close> when the first call passes its declaration. So a first call that
  asks for a visible button does nothing to the host. In general the button is shown or
  hidden and the overflow button gets its two \<^verbatim>\<open>WM_LBUTTONUP\<close> exactly when the
  requested visibility differs from the cached one or the primary taskbar is not the
  cached one, and nothing is sent otherwise; afterwards the cache holds the request and
  the current primary taskbar.
\<close>

theorem TogglePeek_cached:
  "cached_peek initial_world = True \<and> cached_taskbar initial_world = None
   \<and> (cached_taskbar w = None \<and> cached_peek w = True \<longrightarrow> out (TogglePeek P True w) = out w)
   \<and> out (TogglePeek P status w) = out w @
     (if status \<noteq> cached_peek w \<or> (\<exists>t. cached_taskbar w = Some t \<and> t \<noteq> main_taskbar (run w)) then
        [ShowWindow (FindEx P (FindEx P (main_taskbar (run w)) ''TrayNotifyWnd'') ''TrayShowDesktopButtonWClass'')
           (if status then SW_SHOWNORMAL else SW_HIDE),
         SendMessage (FindEx P (FindEx P (main_taskbar (run w)) ''TrayNotifyWnd'') ''Button'') WM_LBUTTONUP,
         SendMessage (FindEx P (FindEx P (main_taskbar (run w)) ''TrayNotifyWnd'') ''Button'') WM_LBUTTONUP]
      else [])
   \<and> cached_peek (TogglePeek P status w) = status
   \<and> cached_taskbar (TogglePeek P status w) = Some (main_taskbar (run w))"
  using out_TogglePeek [of P status w] out_TogglePeek [of P True w] cache_TogglePeek [of P status w]
  by (simp add: initial_world_def)

theorem TogglePeek_cached_witness:
  "cached_taskbar example_world = None \<and> cached_peek example_world = True
   \<and> out (TogglePeek example_host True example_world) = out example_world
   \<and> out (TogglePeek example_host False example_world) =
       [ShowWindow 13 SW_HIDE, SendMessage 14 WM_LBUTTONUP, SendMessage 14 WM_LBUTTONUP]
   \<and> out (TogglePeek example_host True (TogglePeek example_host False example_world)) =
       [ShowWindow 13 SW_HIDE, SendMessage 14 WM_LBUTTONUP, SendMessage 14 WM_LBUTTONUP,
        ShowWindow 13 SW_SHOWNORMAL, SendMessage 14 WM_LBUTTONUP, SendMessage 14 WM_LBUTTONUP]"
  using TogglePeek_cached [of example_world example_host True]
    TogglePeek_cached [of example_world example_host False]
    TogglePeek_cached [of "TogglePeek example_host False example_world" example_host True]
  by (simp add: example_world_eq initial_world_def example_host_def frame_TogglePeek)

section \<open>Leaving the taskbars as the shell has them\<close>

lemma frame_SetWindowBlur:
  "run (SetWindowBlur P h a c w) = run w \<and> opt (SetWindowBlur P h a c w) = opt w \<and>
   cached_peek (SetWindowBlur P h a c w) = cached_peek w \<and>
   cached_taskbar (SetWindowBlur P h a c w) = cached_taskbar w \<and>
   blacklist_cache (SetWindowBlur P h a c w) = blacklist_cache w \<and>
   counter (SetWindowBlur P h a c w) = counter w"
  by (auto simp add: SetWindowBlur_def emit_def Let_def)















section \<open>The blacklist matcher\<close>

lemma wfind_sublist: "wfind t v \<noteq> None \<longleftrightarrow> sublist v t"
  by (induction t) (auto simp add: sublist_Cons_right)

lemma blacklist_match_iff:
  "blacklist_match P op window \<longleftrightarrow>
     classname P window \<in> set (blacklisted_classes op)
     \<or> (\<exists>v \<in> set (blacklisted_titles op). sublist v (title P window))
     \<or> ToLower P (filename P window) \<in> set (blacklisted_filenames op)"
  unfolding blacklist_match_def list_ex_iff wfind_sublist by auto

lemma blacklist_match_spec:
  assumes "\<forall>v \<in> set (blacklisted_filenames op). ToLower P v = v"
  shows "blacklist_match P op window = rules_match_spec P op window"
  unfolding blacklist_match_iff rules_match_spec_def using assms by auto

lemma IsWindowBlacklisted_hit:
  assumes "cache_hits (run w) \<le> CACHE_HIT_MAX cfg" and "blacklist_cache w window = Some cached"
  shows "IsWindowBlacklisted cfg P window w =
    (cached, w\<lparr>run := (run w)\<lparr>cache_hits := cache_hits (run w) + 1\<rparr>\<rparr>)"
  using assms by (simp add: IsWindowBlacklisted_def)

lemma IsWindowBlacklisted_miss:
  assumes "\<not> (cache_hits (run w) \<le> CACHE_HIT_MAX cfg \<and> blacklist_cache w window \<noteq> None)"
  shows "fst (IsWindowBlacklisted cfg P window w) = blacklist_match P (opt w) window"
    and "blacklist_cache (snd (IsWindowBlacklisted cfg P window w)) =
      (if cache_hits (run w) > CACHE_HIT_MAX cfg then Map.empty else blacklist_cache w)
        (window \<mapsto> blacklist_match P (opt w) window)"
    and "cache_hits (run (snd (IsWindowBlacklisted cfg P window w))) =
      (if cache_hits (run w) > CACHE_HIT_MAX cfg then 0 else cache_hits (run w))"
  using assms
  by (auto simp add: IsWindowBlacklisted_def OutputBlacklistMatchToLog_def emit_def Let_def
      split: option.splits)

lemma IsWindowBlacklisted_frame:
  "opt (snd (IsWindowBlacklisted cfg P window w)) = opt w \<and>
   is_normal (snd (IsWindowBlacklisted cfg P window w)) = is_normal w \<and>
   cached_peek (snd (IsWindowBlacklisted cfg P window w)) = cached_peek w \<and>
   cached_taskbar (snd (IsWindowBlacklisted cfg P window w)) = cached_taskbar w \<and>
   counter (snd (IsWindowBlacklisted cfg P window w)) = counter w \<and>
   run (snd (IsWindowBlacklisted cfg P window w)) =
     (run w)\<lparr>cache_hits := cache_hits (run (snd (IsWindowBlacklisted cfg P window w)))\<rparr>"
  by (auto simp add: IsWindowBlacklisted_def OutputBlacklistMatchToLog_def emit_def Let_def
      split: option.splits)

text \<open>
  Claim C4. \<^verbatim>\<open>IsWindowBlacklisted\<close> is the matcher of section 4.2. With a hit
  count of at most \<^verbatim>\<open>CACHE_HIT_MAX\<close> and the window in the cache it returns the cached
  answer and changes nothing but the hit count, which grows by one: no rule is
  evaluated. Otherwise it first empties the cache and sets the count to 0 if the count
  is beyond the bound, then returns and caches whether the class name equals an entry,
  or else the title contains an entry, or else the lower-cased executable name equals
  an entry. The entries for executable names are those that \<^verbatim>\<open>ParseBlacklistFile\<close>
  stored from the lower-cased line, so both sides are lower-cased: this is the
  hypothesis. The order of the three rule sets is that of \<open>blacklist_match\<close>; the
  answer is their disjunction.
\<close>

theorem IsWindowBlacklisted_spec:
  assumes "\<forall>v \<in> set (blacklisted_filenames (opt w)). ToLower P v = v"
  shows "(fst (IsWindowBlacklisted cfg P window w),
          blacklist_cache (snd (IsWindowBlacklisted cfg P window w)),
          cache_hits (run (snd (IsWindowBlacklisted cfg P window w)))) =
         is_blacklisted_spec cfg P (opt w) window (blacklist_cache w, cache_hits (run w))
    \<and> (cache_hits (run w) \<le> CACHE_HIT_MAX cfg \<and> blacklist_cache w window \<noteq> None \<longrightarrow>
         snd (IsWindowBlacklisted cfg P window w) =
           w\<lparr>run := (run w)\<lparr>cache_hits := cache_hits (run w) + 1\<rparr>\<rparr>)
    \<and> opt (snd (IsWindowBlacklisted cfg P window w)) = opt w"
proof (cases "cache_hits (run w) \<le> CACHE_HIT_MAX cfg \<and> blacklist_cache w window \<noteq> None")
  case True
  then obtain cached where c: "blacklist_cache w window = Some cached" by auto
  show ?thesis
    using True c IsWindowBlacklisted_hit [of w cfg window cached P]
    by (simp add: is_blacklisted_spec_def)
next
  case False
  show ?thesis
    using False IsWindowBlacklisted_miss [OF False, of P] blacklist_match_spec [OF assms, of window]
      IsWindowBlacklisted_frame [of cfg P window w]
    by (auto simp add: is_blacklisted_spec_def Let_def)
qed

lemma example_lower_rule: "example_lower ''notepad.exe'' = ''notepad.exe''"
  unfolding example_lower_def by code_simp

lemma example_lower_exe: "example_lower ''NOTEPAD.EXE'' = ''notepad.exe''"
  unfolding example_lower_def by code_simp

lemma example_rules_lower:
  "\<forall>v \<in> set (blacklisted_filenames (opt example_listed)). ToLower example_host v = v"
  by (simp add: example_listed_def example_rules_def example_host_def example_lower_rule)

lemma example_title: "\<not> sublist ''Visual Studio'' ''notes - Notepad''"
  by code_simp

lemma example_spec_value:
  "is_blacklisted_spec example_config example_host (opt example_listed) 20
     (blacklist_cache example_listed, cache_hits (run example_listed)) = (True, [20 \<mapsto> True], 0)"
  by (simp add: is_blacklisted_spec_def rules_match_spec_def example_listed_def example_rules_def
      example_world_eq initial_world_def example_config_def example_host_def
      example_lower_rule example_lower_exe example_title)

theorem IsWindowBlacklisted_spec_witness:
  "fst (IsWindowBlacklisted example_config example_host 20 example_listed) = True
   \<and> blacklist_cache (snd (IsWindowBlacklisted example_config example_host 20 example_listed)) = [20 \<mapsto> True]
   \<and> cache_hits (run (snd (IsWindowBlacklisted example_config example_host 20 example_listed))) = 0"
  using IsWindowBlacklisted_spec [OF example_rules_lower, of example_config 20]
  unfolding example_spec_value by simp


section \<open>The bound on cache hits\<close>

lemma hits_bound_step:
  assumes "0 \<le> CACHE_HIT_MAX cfg" and "cache_hits (run w) \<le> CACHE_HIT_MAX cfg + 1"
  shows "cache_hits (run (matcher_step cfg call w)) \<le> CACHE_HIT_MAX cfg + 1"
proof (cases call)
  case (Call_IsWindowBlacklisted P window)
  show ?thesis
  proof (cases "cache_hits (run w) \<le> CACHE_HIT_MAX cfg \<and> blacklist_cache w window \<noteq> None")
    case True
    then obtain cached where "blacklist_cache w window = Some cached" by auto
    then show ?thesis using True Call_IsWindowBlacklisted
      by (simp add: IsWindowBlacklisted_hit)
  next
    case False
    show ?thesis using IsWindowBlacklisted_miss(3) [OF False, of P] assms Call_IsWindowBlacklisted
      by simp
  qed
qed (simp_all add: ClearBlacklistCache_def)

lemma hits_bound:
  assumes "0 \<le> CACHE_HIT_MAX cfg" and "cache_hits (run w0) \<le> CACHE_HIT_MAX cfg + 1"
  shows "cache_hits (run (fold (matcher_step cfg) calls w0)) \<le> CACHE_HIT_MAX cfg + 1"
  using assms(2)
proof (induction calls arbitrary: w0)
  case Nil
  then show ?case by simp
next
  case (Cons call calls)
  show ?case using Cons.IH [OF hits_bound_step [OF assms(1) Cons.prems]] by simp
qed

text \<open>
  Claim C5. After any sequence of queries, \<^verbatim>\<open>ClearBlacklistCache\<close> calls and reloads,
  started with a hit count of 0, the count is at most \<^verbatim>\<open>CACHE_HIT_MAX + 1\<close>; and
  whenever it is beyond \<^verbatim>\<open>CACHE_HIT_MAX\<close>, the next query answers from the rules and not
  from the cache, whatever the cache holds, and leaves a cache holding that one answer
  only and a count of 0.
\<close>

theorem cache_cleared_beyond_bound:
  assumes "0 \<le> CACHE_HIT_MAX cfg" and "cache_hits (run w0) = 0"
    and "w = fold (matcher_step cfg) calls w0"
  shows "cache_hits (run w) \<le> CACHE_HIT_MAX cfg + 1
    \<and> (CACHE_HIT_MAX cfg < cache_hits (run w) \<longrightarrow>
         fst (IsWindowBlacklisted cfg P window w) = blacklist_match P (opt w) window
       \<and> blacklist_cache (snd (IsWindowBlacklisted cfg P window w)) =
           [window \<mapsto> blacklist_match P (opt w) window]
       \<and> cache_hits (run (snd (IsWindowBlacklisted cfg P window w))) = 0)"
proof -
  have "cache_hits (run w) \<le> CACHE_HIT_MAX cfg + 1"
    unfolding assms(3) using hits_bound [OF assms(1), of w0 calls] assms(1,2) by simp
  moreover have "CACHE_HIT_MAX cfg < cache_hits (run w) \<longrightarrow>
         fst (IsWindowBlacklisted cfg P window w) = blacklist_match P (opt w) window
       \<and> blacklist_cache (snd (IsWindowBlacklisted cfg P window w)) =
           [window \<mapsto> blacklist_match P (opt w) window]
       \<and> cache_hits (run (snd (IsWindowBlacklisted cfg P window w))) = 0"
  proof
    assume h: "CACHE_HIT_MAX cfg < cache_hits (run w)"
    then have m: "\<not> (cache_hits (run w) \<le> CACHE_HIT_MAX cfg \<and> blacklist_cache w window \<noteq> None)"
      by simp
    show "fst (IsWindowBlacklisted cfg P window w) = blacklist_match P (opt w) window
       \<and> blacklist_cache (snd (IsWindowBlacklisted cfg P window w)) =
           [window \<mapsto> blacklist_match P (opt w) window]
       \<and> cache_hits (run (snd (IsWindowBlacklisted cfg P window w))) = 0"
      using IsWindowBlacklisted_miss [OF m, of P] h by simp
  qed
  ultimately show ?thesis by blast
qed


lemma example_first_answer:
  "blacklist_match example_host example_rules 20"
  by (simp add: blacklist_match_iff example_rules_def example_host_def example_lower_exe)

lemma example_reloaded_state:
  "cache_hits (run example_reloaded) = 501
   \<and> blacklist_cache example_reloaded = [20 \<mapsto> True]
   \<and> opt example_reloaded =
       \<lparr>blacklisted_classes = [], blacklisted_filenames = [], blacklisted_titles = []\<rparr>"
  using example_first_answer
  by (simp add: example_reloaded_def example_calls_def IsWindowBlacklisted_def
      OutputBlacklistMatchToLog_def ClearBlacklistCache_def example_listed_def example_world_eq
      initial_world_def example_config_def Let_def)

theorem cache_cleared_beyond_bound_witness:
  "0 \<le> CACHE_HIT_MAX example_config \<and> cache_hits (run example_listed) = 0
   \<and> cache_hits (run example_reloaded) = 501
   \<and> blacklist_cache example_reloaded = [20 \<mapsto> True]
   \<and> fst (IsWindowBlacklisted example_config example_host 20 example_reloaded) = False
   \<and> blacklist_cache (snd (IsWindowBlacklisted example_config example_host 20 example_reloaded)) =
       [20 \<mapsto> False]
   \<and> cache_hits (run (snd (IsWindowBlacklisted example_config example_host 20 example_reloaded))) = 0"
proof -
  have 1: "0 \<le> CACHE_HIT_MAX example_config" by (simp add: example_config_def)
  have 2: "cache_hits (run example_listed) = 0"
    by (simp add: example_listed_def example_world_eq initial_world_def)
  have 3: "CACHE_HIT_MAX example_config < cache_hits (run example_reloaded)"
    using example_reloaded_state by (simp add: example_config_def)
  have 4: "\<not> blacklist_match example_host (opt example_reloaded) 20"
    using example_reloaded_state by (simp add: blacklist_match_def)
  show ?thesis
    using cache_cleared_beyond_bound [OF 1 2 example_reloaded_def, of example_host 20]
      1 2 3 4 example_reloaded_state
    by simp
qed


section \<open>One pass of \<^verbatim>\<open>SetTaskbarBlur\<close>\<close>

lemma same_core_refl: "same_core w w"
  by (simp add: same_core_def)

lemma same_core_trans: "same_core w w1 \<Longrightarrow> same_core w1 w2 \<Longrightarrow> same_core w w2"
  by (simp add: same_core_def)

lemma same_core_IsWindowBlacklisted: "same_core w (snd (IsWindowBlacklisted cfg P window w))"
  by (auto simp add: same_core_def IsWindowBlacklisted_def OutputBlacklistMatchToLog_def emit_def
      Let_def split: option.splits)

lemma keys_update:
  "map_of al k = Some v \<Longrightarrow> map fst (AList.update k v' al) = map fst al"
  by (simp add: update_keys) (metis domI dom_map_of_conv_image_fst image_set)

lemma EnumWindowsProcess_cases:
  "EnumWindowsProcess cfg P hWnd w = Inl out_of_range \<and>
     visible P hWnd \<and> window_state P hWnd = SW_MAXIMIZE \<and> \<not> cloaked P hWnd \<and>
     on_current_desktop P hWnd \<and> monitor P hWnd \<notin> fst ` set (taskbars (run w))
   \<or> (\<exists>w'. EnumWindowsProcess cfg P hWnd w = Inr w' \<and> same_core w w')"
proof (cases "visible P hWnd \<and> window_state P hWnd = SW_MAXIMIZE \<and> \<not> cloaked P hWnd")
  case False
  then show ?thesis by (auto simp add: EnumWindowsProcess_def same_core_refl)
next
  case True
  obtain b w1 where b: "IsWindowBlacklisted cfg P hWnd w = (b, w1)" by (cases "IsWindowBlacklisted cfg P hWnd w")
  have c: "same_core w w1" using same_core_IsWindowBlacklisted [of w cfg P hWnd] b by simp
  show ?thesis
  proof (cases "\<not> b \<and> on_current_desktop P hWnd")
    case False
    then show ?thesis using True b c by (auto simp add: EnumWindowsProcess_def)
  next
    case t: True
    show ?thesis
    proof (cases "map_of (taskbars (run w1)) (monitor P hWnd)")
      case None
      then have "monitor P hWnd \<notin> fst ` set (taskbars (run w))"
        using c by (metis same_core_def map_of_eq_None_iff set_map)
      then show ?thesis using True t b None by (simp add: EnumWindowsProcess_def)
    next
      case (Some taskbar)
      have "map fst (AList.update (monitor P hWnd) (fst taskbar, WindowMaximised) (taskbars (run w1)))
          = map fst (taskbars (run w1))"
        using keys_update [OF Some] .
      then show ?thesis using True t b Some c
        by (auto simp add: EnumWindowsProcess_def same_core_def Let_def)
    qed
  qed
qed

lemma EnumWindows_same_core:
  "EnumWindows cfg P hs w = Inr w' \<Longrightarrow> same_core w w'"
proof (induction hs arbitrary: w)
  case Nil
  then show ?case by (simp add: same_core_refl)
next
  case (Cons h hs)
  from EnumWindowsProcess_cases [of cfg P h w] Cons.prems
  obtain w1 where w1: "EnumWindowsProcess cfg P h w = Inr w1" "same_core w w1"
    by (auto simp add: seq_def)
  then have "EnumWindows cfg P hs w1 = Inr w'" using Cons.prems by (simp add: seq_def)
  then show ?case using Cons.IH w1(2) same_core_trans by blast
qed


lemma keys_reset_states: "map fst (reset_states tbs) = map fst tbs"
  by (induction tbs) (auto simp add: reset_states_def)

lemma reset_states_Normal: "t \<in> set (reset_states tbs) \<Longrightarrow> snd (snd t) = Normal"
  by (auto simp add: reset_states_def)

lemma run_TogglePeek: "run (TogglePeek P status w) = run w"
  using frame_TogglePeek [of P status w] by simp

lemma opt_TogglePeek: "opt (TogglePeek P status w) = opt w"
  using frame_TogglePeek [of P status w] by simp

text \<open>The states with which a full pass ends, from those that the enumeration left.\<close>

lemma classify_Inr:
  assumes "classify cfg P w = Inr w'"
  shows "\<exists>w2. same_core w w2 \<and> opt w' = opt w2 \<and>
     (if DYNAMIC_START cfg \<and> IsStartVisible P then
        \<exists>taskbar. map_of (taskbars (run w2)) (monitor P (start_window P)) = Some taskbar \<and>
          run w' = (run w2)\<lparr>taskbars :=
            (if DYNAMIC_WS cfg \<and> DYNAMIC_NORMAL_ON_PEEK cfg \<and> peek_active (run w)
             then reset_states (AList.update (monitor P (start_window P)) (fst taskbar, StartMenuOpen)
                    (taskbars (run w2)))
             else AList.update (monitor P (start_window P)) (fst taskbar, StartMenuOpen)
                    (taskbars (run w2)))\<rparr>
      else
        run w' = (run w2)\<lparr>taskbars :=
          (if DYNAMIC_WS cfg \<and> DYNAMIC_NORMAL_ON_PEEK cfg \<and> peek_active (run w)
           then reset_states (taskbars (run w2)) else taskbars (run w2))\<rparr>)"
proof -
  define w1 where "w1 = w\<lparr>run := (run w)\<lparr>should_show_peek := (PEEK cfg = Enabled),
                                  taskbars := reset_states (taskbars (run w))\<rparr>\<rparr>"
  define r where "r = (if DYNAMIC_WS cfg \<or> PEEK cfg = Dynamic
              then EnumWindows cfg P (windows P) (w1\<lparr>counter := 0\<rparr>) else Inr w1)"
  obtain w2 where w2: "r = Inr w2"
    using assms unfolding classify_def Let_def seq_def w1_def [symmetric] r_def [symmetric]
    by (cases r) auto
  have c1: "same_core w w1" "same_core w (w1\<lparr>counter := 0\<rparr>)"
    by (simp_all add: same_core_def w1_def keys_reset_states)
  have c2: "same_core w w2"
  proof (cases "DYNAMIC_WS cfg \<or> PEEK cfg = Dynamic")
    case True
    then have "EnumWindows cfg P (windows P) (w1\<lparr>counter := 0\<rparr>) = Inr w2" using w2 r_def by simp
    then show ?thesis using EnumWindows_same_core c1(2) same_core_trans by blast
  next
    case False
    then show ?thesis using w2 r_def c1(1) by simp
  qed
  have p: "peek_active (run w2) = peek_active (run w)" using c2 by (simp add: same_core_def)
  define w3 where "w3 = TogglePeek P (should_show_peek (run w2)) w2"
  have r3: "run w3 = run w2" "opt w3 = opt w2" by (simp_all add: w3_def run_TogglePeek opt_TogglePeek)
  have a: "seq (if DYNAMIC_START cfg \<and> IsStartVisible P then
                      (case map_of (taskbars (run w3)) (monitor P (start_window P)) of
                         None \<Rightarrow> Inl out_of_range
                       | Some taskbar \<Rightarrow>
                          Inr (w3\<lparr>run := (run w3)\<lparr>taskbars :=
                                 AList.update (monitor P (start_window P)) (fst taskbar, StartMenuOpen)
                                   (taskbars (run w3))\<rparr>\<rparr>))
                    else Inr w3)
                (\<lambda>w4.
                  let w5 = (if DYNAMIC_WS cfg \<and> DYNAMIC_NORMAL_ON_PEEK cfg \<and> peek_active (run w4)
                            then w4\<lparr>run := (run w4)\<lparr>taskbars := reset_states (taskbars (run w4))\<rparr>\<rparr>
                            else w4)
                  in Inr (w5\<lparr>counter := 0\<rparr>)) = Inr w'"
    using assms w2 unfolding classify_def Let_def w1_def [symmetric] r_def [symmetric] w3_def
    by (simp add: seq_def)
  show ?thesis
  proof (cases "DYNAMIC_START cfg \<and> IsStartVisible P")
    case True
    then obtain taskbar where t: "map_of (taskbars (run w2)) (monitor P (start_window P)) = Some taskbar"
      using a r3 by (cases "map_of (taskbars (run w2)) (monitor P (start_window P))") (auto simp add: seq_def)
    show ?thesis using a True t r3 p c2
      by (intro exI [of _ w2]) (auto simp add: seq_def Let_def split: if_splits)
  next
    case False
    show ?thesis using a False r3 p c2
      by (intro exI [of _ w2]) (auto simp add: seq_def Let_def split: if_splits)
  qed
qed

lemma classify_same_core:
  assumes "classify cfg P w = Inr w'"
  shows "same_core w w'"
proof -
  from classify_Inr [OF assms] obtain w2 where c: "same_core w w2" and o: "opt w' = opt w2" and
    r: "if DYNAMIC_START cfg \<and> IsStartVisible P then
        \<exists>taskbar. map_of (taskbars (run w2)) (monitor P (start_window P)) = Some taskbar \<and>
          run w' = (run w2)\<lparr>taskbars :=
            (if DYNAMIC_WS cfg \<and> DYNAMIC_NORMAL_ON_PEEK cfg \<and> peek_active (run w)
             then reset_states (AList.update (monitor P (start_window P)) (fst taskbar, StartMenuOpen)
                    (taskbars (run w2)))
             else AList.update (monitor P (start_window P)) (fst taskbar, StartMenuOpen)
                    (taskbars (run w2)))\<rparr>
      else
        run w' = (run w2)\<lparr>taskbars :=
          (if DYNAMIC_WS cfg \<and> DYNAMIC_NORMAL_ON_PEEK cfg \<and> peek_active (run w)
           then reset_states (taskbars (run w2)) else taskbars (run w2))\<rparr>"
    by blast
  have "same_core w2 w'"
    using r o by (auto simp add: same_core_def keys_reset_states keys_update split: if_splits)
  then show ?thesis using c same_core_trans by blast
qed

lemma run_apply_fold: "run (fold (apply_taskbar cfg P) tbs w) = run w \<and> opt (fold (apply_taskbar cfg P) tbs w) = opt w"
proof (induction tbs arbitrary: w)
  case Nil
  then show ?case by simp
next
  case (Cons t tbs)
  obtain m h s where t: "t = (m, h, s)" by (cases t)
  show ?case using Cons [of "apply_taskbar cfg P t w"]
    by (cases s) (simp_all add: t frame_SetWindowBlur)
qed

lemma run_apply_taskbars: "run (apply_taskbars cfg P w) = run w" "opt (apply_taskbars cfg P w) = opt w"
  by (simp_all add: apply_taskbars_def run_apply_fold)

lemma SetTaskbarBlur_Inr:
  "SetTaskbarBlur cfg P w = Inr w' \<longleftrightarrow>
     (\<exists>w1. (if 10 \<le> counter w then classify cfg P w else Inr w) = Inr w1 \<and>
        w' = (apply_taskbars cfg P w1)\<lparr>counter := counter (apply_taskbars cfg P w1) + 1\<rparr>)"
  by (cases "if 10 \<le> counter w then classify cfg P w else Inr w")
    (auto simp add: SetTaskbarBlur_def seq_def Let_def)

lemma SetTaskbarBlur_same_core:
  assumes "SetTaskbarBlur cfg P w = Inr w'"
  shows "same_core w w'"
proof -
  from assms obtain w1 where w1: "(if 10 \<le> counter w then classify cfg P w else Inr w) = Inr w1"
    and w': "w' = (apply_taskbars cfg P w1)\<lparr>counter := counter (apply_taskbars cfg P w1) + 1\<rparr>"
    unfolding SetTaskbarBlur_Inr by blast
  have "same_core w w1" using w1 classify_same_core same_core_refl by (auto split: if_splits)
  moreover have "same_core w1 w'" by (simp add: w' same_core_def run_apply_taskbars)
  ultimately show ?thesis using same_core_trans by blast
qed

text \<open>The triggers depend on the state through the matcher only.\<close>

lemma matcher_eq_refl: "matcher_eq w w"
  by (simp add: matcher_eq_def)

lemma matcher_eq_trans: "matcher_eq w w1 \<Longrightarrow> matcher_eq w1 w2 \<Longrightarrow> matcher_eq w w2"
  by (simp add: matcher_eq_def)

lemma matcher_eq_sym: "matcher_eq w w1 \<Longrightarrow> matcher_eq w1 w"
  by (simp add: matcher_eq_def)

lemma IsWindowBlacklisted_matcher_eq:
  assumes "matcher_eq w w'"
  shows "fst (IsWindowBlacklisted cfg P h w') = fst (IsWindowBlacklisted cfg P h w)"
    and "matcher_eq (snd (IsWindowBlacklisted cfg P h w)) (snd (IsWindowBlacklisted cfg P h w'))"
  using assms
  by (auto simp add: matcher_eq_def IsWindowBlacklisted_def OutputBlacklistMatchToLog_def emit_def
      Let_def split: option.splits)

lemma triggers_matcher_eq:
  "matcher_eq w w' \<Longrightarrow> triggers cfg P hs w' = triggers cfg P hs w"
proof (induction hs arbitrary: w w')
  case Nil
  then show ?case by simp
next
  case (Cons h hs)
  have f: "fst (IsWindowBlacklisted cfg P h w') = fst (IsWindowBlacklisted cfg P h w)"
    using IsWindowBlacklisted_matcher_eq(1) [OF Cons.prems] .
  have t: "triggers cfg P hs (snd (IsWindowBlacklisted cfg P h w')) =
      triggers cfg P hs (snd (IsWindowBlacklisted cfg P h w))"
    using Cons.IH [OF IsWindowBlacklisted_matcher_eq(2) [OF Cons.prems]] .
  show ?case using f t Cons.IH [OF Cons.prems] by (simp add: case_prod_beta)
qed

lemma triggers_Cons:
  "triggers cfg P (h # hs) w = triggers cfg P [h] w @ triggers cfg P hs (after_question cfg P h w)"
  by (simp add: after_question_def case_prod_beta)

lemma keys_restate: "map fst (restate f tbs) = map fst tbs"
  by (induction tbs) (auto simp add: restate_def)

lemma restate_restate: "restate f (restate g tbs) = restate (\<lambda>m s. f m (g m s)) tbs"
  by (induction tbs) (auto simp add: restate_def)

lemma restate_cong: "(\<And>m s. m \<in> fst ` set tbs \<Longrightarrow> f m s = g m s) \<Longrightarrow> restate f tbs = restate g tbs"
  by (induction tbs) (auto simp add: restate_def)

lemma restate_id: "restate (\<lambda>m s. s) tbs = tbs"
  by (induction tbs) (auto simp add: restate_def)

lemma reset_states_restate: "reset_states tbs = restate (\<lambda>m s. Normal) tbs"
  by (simp add: reset_states_def restate_def)

lemma update_restate:
  assumes "distinct (map fst al)" and "map_of al k = Some t"
  shows "AList.update k (fst t, s') al = restate (\<lambda>m s. if m = k then s' else s) al"
  using assms
proof (induction al)
  case Nil
  then show ?case by simp
next
  case (Cons e al)
  obtain m h s where e: "e = (m, h, s)" by (cases e)
  show ?case
  proof (cases "m = k")
    case True
    then have "k \<notin> fst ` set al" using Cons.prems(1) e by auto
    then have "restate (\<lambda>m s. if m = k then s' else s) al = restate (\<lambda>m s. s) al"
      by (intro restate_cong) auto
    then show ?thesis using True e Cons.prems(2) by (auto simp add: restate_def restate_id)
  next
    case False
    then show ?thesis using Cons e by (simp add: restate_def)
  qed
qed


lemma same_core_keys: "same_core w w' \<Longrightarrow> fst ` set (taskbars (run w')) = fst ` set (taskbars (run w))"
  by (metis same_core_def set_map)

lemma IsWindowBlacklisted_taskbars:
  "taskbars (run (snd (IsWindowBlacklisted cfg P h w))) = taskbars (run w)"
  by (auto simp add: IsWindowBlacklisted_def OutputBlacklistMatchToLog_def emit_def
      Let_def split: option.splits)

lemma triggers_single:
  "triggers cfg P [h] w =
     (if visible P h \<and> window_state P h = SW_MAXIMIZE \<and> \<not> cloaked P h \<and>
         \<not> fst (IsWindowBlacklisted cfg P h w) \<and> on_current_desktop P h then [h] else [])"
  by (simp add: case_prod_beta)

declare triggers.simps(2) [simp del]

lemma restate_If_False: "restate (\<lambda>m. If False x) tbs = tbs"
  by (induction tbs) (auto simp add: restate_def)

text \<open>One call of the callback, exactly.\<close>

lemma EnumWindowsProcess_exact:
  assumes "distinct (map fst (taskbars (run w)))"
  shows "if \<forall>x \<in> set (triggers cfg P [h] w). monitor P x \<in> fst ` set (taskbars (run w)) then
      \<exists>w'. EnumWindowsProcess cfg P h w = Inr w' \<and> same_core w w' \<and>
        matcher_eq (after_question cfg P h w) w' \<and>
        taskbars (run w') =
          restate (\<lambda>m s. if DYNAMIC_WS cfg \<and> m \<in> monitor P ` set (triggers cfg P [h] w)
                          then WindowMaximised else s) (taskbars (run w))
    else EnumWindowsProcess cfg P h w = Inl out_of_range"
proof (cases "visible P h \<and> window_state P h = SW_MAXIMIZE \<and> \<not> cloaked P h")
  case False
  then have "triggers cfg P [h] w = []" by (auto simp add: triggers_single)
  then show ?thesis using False
    by (auto simp add: EnumWindowsProcess_def same_core_refl matcher_eq_refl after_question_def
        restate_id restate_If_False)
next
  case pre: True
  obtain b w1 where b: "IsWindowBlacklisted cfg P h w = (b, w1)" by (cases "IsWindowBlacklisted cfg P h w")
  have c: "same_core w w1" using same_core_IsWindowBlacklisted [of w cfg P h] b by simp
  have q: "after_question cfg P h w = w1" using pre b by (simp add: after_question_def)
  have tb: "taskbars (run w1) = taskbars (run w)"
    using IsWindowBlacklisted_taskbars [of cfg P h w] b by simp
  show ?thesis
  proof (cases "\<not> b \<and> on_current_desktop P h")
    case False
    then have "triggers cfg P [h] w = []" using pre b by (auto simp add: triggers_single)
    then show ?thesis using pre b c False tb q
      by (auto simp add: EnumWindowsProcess_def matcher_eq_refl restate_id restate_If_False)
  next
    case t: True
    then have tr: "triggers cfg P [h] w = [h]" using pre b by (simp add: triggers_single)
    show ?thesis
    proof (cases "map_of (taskbars (run w1)) (monitor P h)")
      case None
      then have "monitor P h \<notin> fst ` set (taskbars (run w))"
        unfolding tb by (simp add: map_of_eq_None_iff)
      then show ?thesis using pre t b None tr by (simp add: EnumWindowsProcess_def)
    next
      case (Some taskbar)
      then have r: "monitor P h \<in> fst ` set (taskbars (run w))"
        unfolding tb by (metis map_of_eq_None_iff option.distinct(1))
      have u: "AList.update (monitor P h) (fst taskbar, WindowMaximised) (taskbars (run w1)) =
          restate (\<lambda>m s. if m = monitor P h then WindowMaximised else s) (taskbars (run w))"
        using update_restate [of "taskbars (run w)" "monitor P h" taskbar WindowMaximised] assms Some
        unfolding tb by simp
      have k: "map fst (AList.update (monitor P h) (fst taskbar, WindowMaximised) (taskbars (run w1)))
          = map fst (taskbars (run w1))"
        using keys_update [OF Some] .
      show ?thesis
        using pre t b Some c r tr u k q tb
        by (auto simp add: EnumWindowsProcess_def same_core_def matcher_eq_def Let_def restate_id restate_If_False)
    qed
  qed
qed

lemma EnumWindows_exact:
  assumes "distinct (map fst (taskbars (run w)))"
  shows "if \<forall>x \<in> set (triggers cfg P hs w). monitor P x \<in> fst ` set (taskbars (run w)) then
      \<exists>w'. EnumWindows cfg P hs w = Inr w' \<and> same_core w w' \<and>
        taskbars (run w') =
          restate (\<lambda>m s. if DYNAMIC_WS cfg \<and> m \<in> monitor P ` set (triggers cfg P hs w)
                          then WindowMaximised else s) (taskbars (run w))
    else EnumWindows cfg P hs w = Inl out_of_range"
  using assms
proof (induction hs arbitrary: w)
  case Nil
  then show ?case by (simp add: same_core_refl restate_id restate_If_False)
next
  case (Cons h hs)
  note one = EnumWindowsProcess_exact [OF Cons.prems, of cfg P h]
  show ?case
  proof (cases "\<forall>x \<in> set (triggers cfg P [h] w). monitor P x \<in> fst ` set (taskbars (run w))")
    case False
    then have "EnumWindowsProcess cfg P h w = Inl out_of_range" using one by simp
    moreover have "\<not> (\<forall>x \<in> set (triggers cfg P (h # hs) w). monitor P x \<in> fst ` set (taskbars (run w)))"
      using False unfolding triggers_Cons [of cfg P h hs w] by auto
    ultimately show ?thesis by (simp add: seq_def)
  next
    case True
    then obtain w1 where w1: "EnumWindowsProcess cfg P h w = Inr w1" "same_core w w1"
      "matcher_eq (after_question cfg P h w) w1"
      "taskbars (run w1) =
          restate (\<lambda>m s. if DYNAMIC_WS cfg \<and> m \<in> monitor P ` set (triggers cfg P [h] w)
                          then WindowMaximised else s) (taskbars (run w))"
      using one by auto
    have d1: "distinct (map fst (taskbars (run w1)))"
      using w1(2) Cons.prems by (simp add: same_core_def)
    have k1: "fst ` set (taskbars (run w1)) = fst ` set (taskbars (run w))"
      using same_core_keys [OF w1(2)] .
    have t1: "triggers cfg P hs w1 = triggers cfg P hs (after_question cfg P h w)"
      using triggers_matcher_eq [OF w1(3)] .
    note rest = Cons.IH [OF d1]
    show ?thesis
    proof (cases "\<forall>x \<in> set (triggers cfg P hs w1). monitor P x \<in> fst ` set (taskbars (run w1))")
      case False
      then have "EnumWindows cfg P hs w1 = Inl out_of_range" using rest by simp
      moreover have "\<not> (\<forall>x \<in> set (triggers cfg P (h # hs) w). monitor P x \<in> fst ` set (taskbars (run w)))"
        using False unfolding triggers_Cons [of cfg P h hs w] t1 k1 by auto
      ultimately show ?thesis using w1(1) by (simp add: seq_def)
    next
      case r: True
      then obtain w' where w': "EnumWindows cfg P hs w1 = Inr w'" "same_core w1 w'"
        "taskbars (run w') =
          restate (\<lambda>m s. if DYNAMIC_WS cfg \<and> m \<in> monitor P ` set (triggers cfg P hs w1)
                          then WindowMaximised else s) (taskbars (run w1))"
        using rest by auto
      have a: "\<forall>x \<in> set (triggers cfg P (h # hs) w). monitor P x \<in> fst ` set (taskbars (run w))"
        using True r unfolding triggers_Cons [of cfg P h hs w] t1 k1 by auto
      have "taskbars (run w') =
          restate (\<lambda>m s. if DYNAMIC_WS cfg \<and> m \<in> monitor P ` set (triggers cfg P (h # hs) w)
                          then WindowMaximised else s) (taskbars (run w))"
        unfolding w'(3) w1(4) restate_restate triggers_Cons [of cfg P h hs w] t1
        by (intro restate_cong) auto
      then show ?thesis using a w1(1,2) w'(1,2) same_core_trans by (auto simp add: seq_def)
    qed
  qed
qed


lemma classify_exact:
  assumes d: "distinct (map fst (taskbars (run w)))"
  shows "if monitors_registered cfg P w then
      \<exists>w'. classify cfg P w = Inr w' \<and> same_core w w' \<and>
        taskbars (run w') = restate (\<lambda>m s. state_after_pass cfg P w m) (taskbars (run w))
    else classify cfg P w = Inl out_of_range"
proof -
  define tb where "tb = taskbars (run w)"
  define w1 where "w1 = w\<lparr>run := (run w)\<lparr>should_show_peek := (PEEK cfg = Enabled),
                                  taskbars := reset_states (taskbars (run w))\<rparr>\<rparr>"
  define r where "r = (if DYNAMIC_WS cfg \<or> PEEK cfg = Dynamic
              then EnumWindows cfg P (windows P) (w1\<lparr>counter := 0\<rparr>) else Inr w1)"
  define K where "K = (\<lambda>w2.
            let w3 = TogglePeek P (should_show_peek (run w2)) w2
            in seq (if DYNAMIC_START cfg \<and> IsStartVisible P then
                      (case map_of (taskbars (run w3)) (monitor P (start_window P)) of
                         None \<Rightarrow> Inl out_of_range
                       | Some taskbar \<Rightarrow>
                          Inr (w3\<lparr>run := (run w3)\<lparr>taskbars :=
                                 AList.update (monitor P (start_window P)) (fst taskbar, StartMenuOpen)
                                   (taskbars (run w3))\<rparr>\<rparr>))
                    else Inr w3)
                (\<lambda>w4.
                  let w5 = (if DYNAMIC_WS cfg \<and> DYNAMIC_NORMAL_ON_PEEK cfg \<and> peek_active (run w4)
                            then w4\<lparr>run := (run w4)\<lparr>taskbars := reset_states (taskbars (run w4))\<rparr>\<rparr>
                            else w4)
                  in Inr (w5\<lparr>counter := 0\<rparr>)))"
  have cl: "classify cfg P w = seq r K"
    by (simp add: classify_def w1_def r_def K_def Let_def)
  define G where "G = (\<lambda>(m::hmonitor) (s::TASKBARSTATE).
      if DYNAMIC_WS cfg \<and> m \<in> monitor P ` set (triggers cfg P (windows P) w)
      then WindowMaximised else Normal)"
  define T where "T \<longleftrightarrow> (DYNAMIC_WS cfg \<or> PEEK cfg = Dynamic \<longrightarrow>
      (\<forall>h \<in> set (triggers cfg P (windows P) w). monitor P h \<in> fst ` set tb))"
  define S where "S \<longleftrightarrow> (DYNAMIC_START cfg \<and> IsStartVisible P \<longrightarrow>
      monitor P (start_window P) \<in> fst ` set tb)"
  have lr: "monitors_registered cfg P w \<longleftrightarrow> T \<and> S"
    by (simp add: monitors_registered_def T_def S_def tb_def)
  have c1: "same_core w w1" "same_core w (w1\<lparr>counter := 0\<rparr>)"
    by (simp_all add: same_core_def w1_def keys_reset_states)
  have m1: "matcher_eq w (w1\<lparr>counter := 0\<rparr>)" by (simp add: matcher_eq_def w1_def)
  have t1: "taskbars (run (w1\<lparr>counter := 0\<rparr>)) = restate (\<lambda>m s. Normal) tb"
    "taskbars (run w1) = restate (\<lambda>m s. Normal) tb"
    by (simp_all add: w1_def reset_states_restate tb_def)
  have d1: "distinct (map fst (taskbars (run (w1\<lparr>counter := 0\<rparr>))))"
    unfolding t1 keys_restate using d by (simp add: tb_def)
  have k1: "fst ` set (taskbars (run (w1\<lparr>counter := 0\<rparr>))) = fst ` set tb"
    using same_core_keys [OF c1(2)] by (simp add: tb_def)
  have tr: "triggers cfg P (windows P) (w1\<lparr>counter := 0\<rparr>) = triggers cfg P (windows P) w"
    using triggers_matcher_eq [OF m1] .
  have enum: "if T then \<exists>w2. r = Inr w2 \<and> same_core w w2 \<and> taskbars (run w2) = restate G tb
      else r = Inl out_of_range"
  proof (cases "DYNAMIC_WS cfg \<or> PEEK cfg = Dynamic")
    case True
    have e: "if \<forall>x \<in> set (triggers cfg P (windows P) w). monitor P x \<in> fst ` set tb then
        \<exists>w'. EnumWindows cfg P (windows P) (w1\<lparr>counter := 0\<rparr>) = Inr w' \<and>
          same_core (w1\<lparr>counter := 0\<rparr>) w' \<and>
          taskbars (run w') = restate (\<lambda>m s. if DYNAMIC_WS cfg \<and>
            m \<in> monitor P ` set (triggers cfg P (windows P) w) then WindowMaximised else Normal) tb
      else EnumWindows cfg P (windows P) (w1\<lparr>counter := 0\<rparr>) = Inl out_of_range"
      using EnumWindows_exact [OF d1, of cfg P "windows P"] unfolding tr k1
      by (simp add: t1 restate_restate cong: if_cong)
    show ?thesis
    proof (cases T)
      case False
      then show ?thesis using e True by (auto simp add: r_def T_def)
    next
      case t: True
      then obtain w2 where w2: "EnumWindows cfg P (windows P) (w1\<lparr>counter := 0\<rparr>) = Inr w2"
        "same_core (w1\<lparr>counter := 0\<rparr>) w2"
        "taskbars (run w2) = restate (\<lambda>m s. if DYNAMIC_WS cfg \<and>
            m \<in> monitor P ` set (triggers cfg P (windows P) w) then WindowMaximised else Normal) tb"
        using e True by (auto simp add: T_def)
      then show ?thesis using t True c1(2) same_core_trans by (auto simp add: r_def G_def)
    qed
  next
    case False
    then have "G = (\<lambda>m s. Normal)" by (simp add: G_def)
    then show ?thesis using False c1(1) t1(2) by (simp add: r_def T_def)
  qed
  show ?thesis
  proof (cases T)
    case False
    then show ?thesis using enum cl lr by (simp add: seq_def)
  next
    case True
    then obtain w2 where w2: "r = Inr w2" "same_core w w2" "taskbars (run w2) = restate G tb"
      using enum by auto
    define w3 where "w3 = TogglePeek P (should_show_peek (run w2)) w2"
    have r3: "run w3 = run w2" by (simp add: w3_def run_TogglePeek)
    have k2: "fst ` set (taskbars (run w2)) = fst ` set tb"
      using same_core_keys [OF w2(2)] by (simp add: tb_def)
    have d2: "distinct (map fst (taskbars (run w2)))"
      using w2(2) d by (simp add: same_core_def)
    have p2: "peek_active (run w2) = peek_active (run w)" using w2(2) by (simp add: same_core_def)
    have c: "classify cfg P w = K w2" using cl w2(1) by (simp add: seq_def)
    show ?thesis
    proof (cases "DYNAMIC_START cfg \<and> IsStartVisible P")
      case s: False
      define fin where "fin = (if DYNAMIC_WS cfg \<and> DYNAMIC_NORMAL_ON_PEEK cfg \<and> peek_active (run w)
          then reset_states (taskbars (run w2)) else taskbars (run w2))"
      have kk: "K w2 = Inr (w3\<lparr>run := (run w2)\<lparr>taskbars := fin\<rparr>, counter := 0\<rparr>)"
        using s r3 p2 by (auto simp add: K_def Let_def seq_def w3_def [symmetric] fin_def)
      have f: "fin = restate (\<lambda>m s. state_after_pass cfg P w m) tb"
        unfolding fin_def w2(3) reset_states_restate restate_restate
        using s by (auto simp add: G_def state_after_pass_def intro!: restate_cong)
      have "same_core w (w3\<lparr>run := (run w2)\<lparr>taskbars := fin\<rparr>, counter := 0\<rparr>)"
        using w2(2) f by (simp add: same_core_def keys_restate tb_def w3_def opt_TogglePeek)
      then show ?thesis using True s c kk f lr by (auto simp add: S_def tb_def)
    next
      case s: True
      show ?thesis
      proof (cases "map_of (taskbars (run w2)) (monitor P (start_window P))")
        case None
        then have "monitor P (start_window P) \<notin> fst ` set tb"
          unfolding k2 [symmetric] by (simp add: map_of_eq_None_iff)
        moreover have "K w2 = Inl out_of_range"
          using s r3 None by (simp add: K_def Let_def seq_def w3_def [symmetric])
        ultimately show ?thesis using s c lr by (simp add: S_def)
      next
        case (Some taskbar)
        then have reg: "monitor P (start_window P) \<in> fst ` set tb"
          unfolding k2 [symmetric] by (metis map_of_eq_None_iff option.distinct(1))
        define st where "st = AList.update (monitor P (start_window P)) (fst taskbar, StartMenuOpen)
            (taskbars (run w2))"
        have st: "st = restate (\<lambda>m s. if m = monitor P (start_window P) then StartMenuOpen else s)
            (taskbars (run w2))"
          unfolding st_def using update_restate [OF d2 Some] .
        define fin where "fin = (if DYNAMIC_WS cfg \<and> DYNAMIC_NORMAL_ON_PEEK cfg \<and> peek_active (run w)
            then reset_states st else st)"
        have kk: "K w2 = Inr (w3\<lparr>run := (run w2)\<lparr>taskbars := fin\<rparr>, counter := 0\<rparr>)"
          using s r3 p2 Some
          by (auto simp add: K_def Let_def seq_def w3_def [symmetric] fin_def st_def)
        have f: "fin = restate (\<lambda>m s. state_after_pass cfg P w m) tb"
          unfolding fin_def st w2(3) reset_states_restate restate_restate
          using s by (auto simp add: G_def state_after_pass_def intro!: restate_cong)
        have "same_core w (w3\<lparr>run := (run w2)\<lparr>taskbars := fin\<rparr>, counter := 0\<rparr>)"
          using w2(2) f by (simp add: same_core_def keys_restate tb_def w3_def opt_TogglePeek)
        then show ?thesis using True s c kk f lr reg by (auto simp add: S_def tb_def)
      qed
    qed
  qed
qed

lemma counter_apply_fold: "counter (fold (apply_taskbar cfg P) tbs w) = counter w"
proof (induction tbs arbitrary: w)
  case Nil
  then show ?case by simp
next
  case (Cons t tbs)
  obtain m h s where t: "t = (m, h, s)" by (cases t)
  show ?case using Cons [of "apply_taskbar cfg P t w"]
    by (cases s) (simp_all add: t frame_SetWindowBlur)
qed

lemma SetTaskbarBlur_exact:
  assumes d: "distinct (map fst (taskbars (run w)))"
  shows "if counter w < 10 then
      SetTaskbarBlur cfg P w = Inr ((apply_taskbars cfg P w)\<lparr>counter := counter w + 1\<rparr>)
    else if monitors_registered cfg P w then
      \<exists>w'. SetTaskbarBlur cfg P w = Inr w' \<and> same_core w w' \<and>
        taskbars (run w') = restate (\<lambda>m s. state_after_pass cfg P w m) (taskbars (run w))
    else SetTaskbarBlur cfg P w = Inl out_of_range"
proof (cases "counter w < 10")
  case True
  have "counter (apply_taskbars cfg P w) = counter w"
    by (simp add: apply_taskbars_def counter_apply_fold)
  then show ?thesis using True by (simp add: SetTaskbarBlur_def seq_def Let_def)
next
  case False
  show ?thesis
  proof (cases "monitors_registered cfg P w")
    case True
    then obtain w1 where w1: "classify cfg P w = Inr w1" "same_core w w1"
      "taskbars (run w1) = restate (\<lambda>m s. state_after_pass cfg P w m) (taskbars (run w))"
      using classify_exact [OF d, of cfg P] by auto
    let ?w' = "(apply_taskbars cfg P w1)\<lparr>counter := counter (apply_taskbars cfg P w1) + 1\<rparr>"
    have "SetTaskbarBlur cfg P w = Inr ?w'" using False w1(1) unfolding SetTaskbarBlur_Inr by simp
    moreover have "same_core w ?w'" using w1(2) by (simp add: same_core_def run_apply_taskbars)
    moreover have "taskbars (run ?w') = restate (\<lambda>m s. state_after_pass cfg P w m) (taskbars (run w))"
      using w1(3) by (simp add: run_apply_taskbars)
    ultimately show ?thesis using False True by auto
  next
    case r: False
    then have "classify cfg P w = Inl out_of_range" using classify_exact [OF d, of cfg P] by simp
    then show ?thesis using False r by (simp add: SetTaskbarBlur_def seq_def)
  qed
qed


lemma distinct_fold_update:
  "distinct (map fst al) \<Longrightarrow> distinct (map fst (fold (\<lambda>h. AList.update (f h) (g h)) hs al))"
  by (induction hs arbitrary: al) (simp_all add: distinct_update)

lemma callback_distinct:
  "distinct (map fst (taskbars (run w))) \<Longrightarrow> distinct (map fst (taskbars (run (callback cfg P m w))))"
  by (cases m)
    (simp_all add: RefreshHandles_def ClearBlacklistCache_def HandleAeroPeekEvent_def emit_def
      Let_def distinct_fold_update)

lemma callbacks_distinct:
  "distinct (map fst (taskbars (run w))) \<Longrightarrow>
   distinct (map fst (taskbars (run (fold (callback cfg P) ms w))))"
  by (induction ms arbitrary: w) (simp_all add: callback_distinct)

lemma SetTaskbarBlur_distinct:
  "SetTaskbarBlur cfg P w = Inr w' \<Longrightarrow> distinct (map fst (taskbars (run w))) \<Longrightarrow>
   distinct (map fst (taskbars (run w')))"
  using SetTaskbarBlur_same_core [of cfg P w w'] by (simp add: same_core_def)

lemma SetTaskbarBlur_outcome:
  assumes "distinct (map fst (taskbars (run w)))"
  shows "SetTaskbarBlur cfg P w = Inl out_of_range \<longleftrightarrow>
      10 \<le> counter w \<and> \<not> monitors_registered cfg P w"
    and "(\<exists>w1. SetTaskbarBlur cfg P w = Inr w1) \<longleftrightarrow> counter w < 10 \<or> monitors_registered cfg P w"
  using SetTaskbarBlur_exact [OF assms, of cfg P] by (auto split: if_splits)

section \<open>The precedence of the states\<close>

lemma classify_peek_reset:
  assumes "classify cfg P w = Inr w'"
    and "DYNAMIC_WS cfg" and "DYNAMIC_NORMAL_ON_PEEK cfg" and "peek_active (run w)"
  shows "\<forall>t \<in> set (taskbars (run w')). snd (snd t) = Normal"
  using classify_Inr [OF assms(1)] assms(2-4)
  by (auto dest!: reset_states_Normal split: if_splits)

lemma classify_start_menu:
  assumes "classify cfg P w = Inr w'"
    and "\<not> (DYNAMIC_WS cfg \<and> DYNAMIC_NORMAL_ON_PEEK cfg \<and> peek_active (run w))"
    and "DYNAMIC_START cfg" and "IsStartVisible P"
  shows "\<exists>h. map_of (taskbars (run w')) (monitor P (start_window P)) = Some (h, StartMenuOpen)"
  using classify_Inr [OF assms(1)] assms(2-4)
  by (auto simp add: update_conv')

text \<open>
  Claim C2, as the code has it. On a full pass with \<^verbatim>\<open>DYNAMIC_WS\<close>,
  \<^verbatim>\<open>DYNAMIC_NORMAL_ON_PEEK\<close> and \<^verbatim>\<open>run.peek_active\<close> all true, the reset of line 533
  comes last and overrides \<^verbatim>\<open>StartMenuOpen\<close> as it overrides \<^verbatim>\<open>WindowMaximised\<close>: after
  the pass every taskbar of the registry is \<^verbatim>\<open>Normal\<close>. When the reset does not apply
  and the Start menu is looked up, the taskbar of its monitor ends as
  \<^verbatim>\<open>StartMenuOpen\<close>, whatever the windows. In general, for a registry with one entry
  per monitor, a full pass that completes leaves every taskbar with its handle and in
  the state that this order gives for its monitor: \<^verbatim>\<open>Normal\<close> by the reset, else
  \<^verbatim>\<open>StartMenuOpen\<close>, else \<^verbatim>\<open>WindowMaximised\<close> for a dynamic trigger on the monitor, else
  \<^verbatim>\<open>Normal\<close>. The pass completes exactly when the monitors it looks up are in the
  registry.
\<close>

theorem peek_reset_overrides_start:
  "(10 \<le> counter w \<and> DYNAMIC_WS cfg \<and> DYNAMIC_NORMAL_ON_PEEK cfg \<and> peek_active (run w) \<and>
      SetTaskbarBlur cfg P w = Inr w' \<longrightarrow>
        (\<forall>t \<in> set (taskbars (run w')). snd (snd t) = Normal))
   \<and> (10 \<le> counter w \<and> \<not> (DYNAMIC_WS cfg \<and> DYNAMIC_NORMAL_ON_PEEK cfg \<and> peek_active (run w)) \<and>
      DYNAMIC_START cfg \<and> IsStartVisible P \<and> SetTaskbarBlur cfg P w = Inr w' \<longrightarrow>
        (\<exists>h. map_of (taskbars (run w')) (monitor P (start_window P)) = Some (h, StartMenuOpen)))
   \<and> (distinct (map fst (taskbars (run w))) \<and> 10 \<le> counter w \<and> SetTaskbarBlur cfg P w = Inr w' \<longrightarrow>
        taskbars (run w') = restate (\<lambda>m s. state_after_pass cfg P w m) (taskbars (run w)))
   \<and> (distinct (map fst (taskbars (run w))) \<and> 10 \<le> counter w \<longrightarrow>
        ((\<exists>w1. SetTaskbarBlur cfg P w = Inr w1) \<longleftrightarrow> monitors_registered cfg P w))"
proof -
  have 1: "10 \<le> counter w \<and> DYNAMIC_WS cfg \<and> DYNAMIC_NORMAL_ON_PEEK cfg \<and> peek_active (run w) \<and>
      SetTaskbarBlur cfg P w = Inr w' \<longrightarrow> (\<forall>t \<in> set (taskbars (run w')). snd (snd t) = Normal)"
  proof
    assume a: "10 \<le> counter w \<and> DYNAMIC_WS cfg \<and> DYNAMIC_NORMAL_ON_PEEK cfg \<and> peek_active (run w) \<and>
      SetTaskbarBlur cfg P w = Inr w'"
    then obtain w1 where w1: "classify cfg P w = Inr w1" "run w' = run w1"
      unfolding SetTaskbarBlur_Inr by (auto simp add: run_apply_taskbars)
    show "\<forall>t \<in> set (taskbars (run w')). snd (snd t) = Normal"
      unfolding w1(2) using classify_peek_reset [OF w1(1)] a by blast
  qed
  have 2: "10 \<le> counter w \<and> \<not> (DYNAMIC_WS cfg \<and> DYNAMIC_NORMAL_ON_PEEK cfg \<and> peek_active (run w)) \<and>
      DYNAMIC_START cfg \<and> IsStartVisible P \<and> SetTaskbarBlur cfg P w = Inr w' \<longrightarrow>
        (\<exists>h. map_of (taskbars (run w')) (monitor P (start_window P)) = Some (h, StartMenuOpen))"
  proof
    assume a: "10 \<le> counter w \<and> \<not> (DYNAMIC_WS cfg \<and> DYNAMIC_NORMAL_ON_PEEK cfg \<and> peek_active (run w)) \<and>
      DYNAMIC_START cfg \<and> IsStartVisible P \<and> SetTaskbarBlur cfg P w = Inr w'"
    then obtain w1 where w1: "classify cfg P w = Inr w1" "run w' = run w1"
      unfolding SetTaskbarBlur_Inr by (auto simp add: run_apply_taskbars)
    show "\<exists>h. map_of (taskbars (run w')) (monitor P (start_window P)) = Some (h, StartMenuOpen)"
      unfolding w1(2) using classify_start_menu [OF w1(1)] a by blast
  qed
  have 3: "distinct (map fst (taskbars (run w))) \<and> 10 \<le> counter w \<and> SetTaskbarBlur cfg P w = Inr w' \<longrightarrow>
        taskbars (run w') = restate (\<lambda>m s. state_after_pass cfg P w m) (taskbars (run w))"
    using SetTaskbarBlur_exact [of w cfg P] by (auto split: if_splits)
  have 4: "distinct (map fst (taskbars (run w))) \<and> 10 \<le> counter w \<longrightarrow>
        ((\<exists>w1. SetTaskbarBlur cfg P w = Inr w1) \<longleftrightarrow> monitors_registered cfg P w)"
    using SetTaskbarBlur_exact [of w cfg P] by (auto split: if_splits)
  show ?thesis using 1 2 3 4 by blast
qed

section \<open>Errors of a pass\<close>

lemma callback_keeps_running:
  "\<not> signals_shutdown m \<Longrightarrow> is_running (run (callback cfg P m w)) = is_running (run w)"
  by (cases m)
    (simp_all add: RefreshHandles_def ClearBlacklistCache_def HandleAeroPeekEvent_def emit_def Let_def)

lemma callbacks_keep_running:
  "\<forall>m \<in> set ms. \<not> signals_shutdown m \<Longrightarrow>
   is_running (run (fold (callback cfg P) ms w)) = is_running (run w)"
  by (induction ms arbitrary: w) (simp_all add: callback_keeps_running)

lemma SetTaskbarBlur_keeps_running:
  "SetTaskbarBlur cfg P w = Inr w' \<Longrightarrow> is_running (run w') = is_running (run w)"
  using SetTaskbarBlur_same_core [of cfg P w w'] by (simp add: same_core_def)

lemma main_loop_Left:
  assumes "main_loop ins w = Left w'" and "is_running (run w)"
  shows "\<exists>i \<in> set ins. \<exists>m \<in> set (msgs i). signals_shutdown m"
  using assms
proof (induction ins arbitrary: w)
  case Nil
  then show ?case by simp
next
  case (Cons i ins)
  let ?w0 = "fold (callback (cfg_of i) (plat_of i)) (msgs i) w"
  show ?case
  proof (cases "\<exists>m \<in> set (msgs i). signals_shutdown m")
    case True
    then show ?thesis by auto
  next
    case False
    then have r0: "is_running (run ?w0)" using callbacks_keep_running [of "msgs i"] Cons.prems(2) by simp
    from Cons.prems obtain w1 where w1: "SetTaskbarBlur (cfg_of i) (plat_of i) ?w0 = Inr w1"
      "main_loop ins w1 = Left w'"
      by (cases "SetTaskbarBlur (cfg_of i) (plat_of i) ?w0") auto
    have "is_running (run w1)" using SetTaskbarBlur_keeps_running [OF w1(1)] r0 by simp
    from Cons.IH [OF w1(2) this] show ?thesis by auto
  qed
qed

lemma main_loop_Left_stopped: "main_loop ins w = Left w' \<Longrightarrow> \<not> is_running (run w')"
proof (induction ins arbitrary: w)
  case Nil
  then show ?case by (auto split: if_splits)
next
  case (Cons i ins)
  then show ?case by (auto split: if_splits sum.splits)
qed

lemma main_loop_Aborted:
  assumes "distinct (map fst (taskbars (run w)))"
  shows "(\<exists>e. main_loop ins w = Aborted e) \<longleftrightarrow> \<not> ticks_registered ins w"
  using assms
proof (induction ins arbitrary: w)
  case Nil
  then show ?case by simp
next
  case (Cons i ins)
  let ?w0 = "fold (callback (cfg_of i) (plat_of i)) (msgs i) w"
  have d0: "distinct (map fst (taskbars (run ?w0)))" using callbacks_distinct [OF Cons.prems] .
  show ?case
  proof (cases "is_running (run w)")
    case False
    then show ?thesis by simp
  next
    case True
    show ?thesis
    proof (cases "counter ?w0 < 10 \<or> monitors_registered (cfg_of i) (plat_of i) ?w0")
      case False
      then have "SetTaskbarBlur (cfg_of i) (plat_of i) ?w0 = Inl out_of_range"
        using SetTaskbarBlur_outcome(1) [OF d0] by auto
      then show ?thesis using True False by (simp add: Let_def)
    next
      case r: True
      then obtain w1 where w1: "SetTaskbarBlur (cfg_of i) (plat_of i) ?w0 = Inr w1"
        using SetTaskbarBlur_outcome(2) [OF d0] by blast
      have d1: "distinct (map fst (taskbars (run w1)))" using SetTaskbarBlur_distinct [OF w1 d0] .
      show ?thesis using Cons.IH [OF d1] True r w1 by (simp add: Let_def)
    qed
  qed
qed

lemma main_loop_Spinning:
  assumes "distinct (map fst (taskbars (run w)))" and "is_running (run w)"
    and "ticks_registered ins w" and "\<forall>i \<in> set ins. \<forall>m \<in> set (msgs i). \<not> signals_shutdown m"
  shows "\<exists>w'. main_loop ins w = Spinning w' \<and> is_running (run w')"
  using assms
proof (induction ins arbitrary: w)
  case Nil
  then show ?case by simp
next
  case (Cons i ins)
  let ?w0 = "fold (callback (cfg_of i) (plat_of i)) (msgs i) w"
  have d0: "distinct (map fst (taskbars (run ?w0)))" using callbacks_distinct [OF Cons.prems(1)] .
  have r0: "is_running (run ?w0)"
    using callbacks_keep_running [of "msgs i"] Cons.prems(2,4) by simp
  have "counter ?w0 < 10 \<or> monitors_registered (cfg_of i) (plat_of i) ?w0"
    using Cons.prems(2,3) by (simp add: Let_def)
  then obtain w1 where w1: "SetTaskbarBlur (cfg_of i) (plat_of i) ?w0 = Inr w1"
    using SetTaskbarBlur_outcome(2) [OF d0] by blast
  have d1: "distinct (map fst (taskbars (run w1)))" using SetTaskbarBlur_distinct [OF w1 d0] .
  have r1: "is_running (run w1)" using SetTaskbarBlur_keeps_running [OF w1] r0 by simp
  have t1: "ticks_registered ins w1" using Cons.prems(2,3) w1 by (simp add: Let_def)
  from Cons.IH [OF d1 r1 t1] Cons.prems(4) show ?case using Cons.prems(2) w1 by simp
qed

text \<open>
  Claim C6, as the code has it. For a registry with one entry per monitor, a pass
  throws \<^verbatim>\<open>std::out_of_range\<close> exactly when it is a full pass that looks up a monitor
  without entry (the monitor of a dynamic trigger or of the Start window), and
  completes otherwise; nothing catches the exception, so the loop is aborted exactly
  when at some iteration it reaches the pass looks up such a monitor. While the
  lookups find their monitors and no message signals shutdown, the loop goes on
  running, iteration after iteration. A completed pass leaves \<^verbatim>\<open>run.is_running\<close> as it
  was; the loop is left only with \<^verbatim>\<open>run.is_running\<close> false, and when it was entered
  running, only after one of the messages that signal shutdown.
\<close>

theorem tick_completes_when_registered:
  "(distinct (map fst (taskbars (run w))) \<longrightarrow>
      (SetTaskbarBlur cfg P w = Inl out_of_range \<longleftrightarrow> 10 \<le> counter w \<and> \<not> monitors_registered cfg P w)
    \<and> ((\<exists>w1. SetTaskbarBlur cfg P w = Inr w1) \<longleftrightarrow> counter w < 10 \<or> monitors_registered cfg P w)
    \<and> ((\<exists>e. main_loop ins w = Aborted e) \<longleftrightarrow> \<not> ticks_registered ins w)
    \<and> (is_running (run w) \<and> ticks_registered ins w \<and>
        (\<forall>i \<in> set ins. \<forall>m \<in> set (msgs i). \<not> signals_shutdown m) \<longrightarrow>
          (\<exists>w3. main_loop ins w = Spinning w3 \<and> is_running (run w3))))
   \<and> (SetTaskbarBlur cfg P w = Inr w' \<longrightarrow> is_running (run w') = is_running (run w))
   \<and> (main_loop ins w = Left w2 \<longrightarrow> \<not> is_running (run w2))
   \<and> (main_loop ins w = Left w2 \<and> is_running (run w) \<longrightarrow>
        (\<exists>i \<in> set ins. \<exists>m \<in> set (msgs i). signals_shutdown m))"
  using SetTaskbarBlur_outcome [of w cfg P] main_loop_Aborted [of w ins] main_loop_Spinning [of w ins]
    SetTaskbarBlur_keeps_running [of cfg P w w']
    main_loop_Left [of ins w w2] main_loop_Left_stopped [of ins w w2]
  by blast


section \<open>The accent submitted for a taskbar\<close>

lemma apply_taskbar_accent:
  "apply_taskbar cfg P t w =
     SetWindowBlur P (fst (snd t)) (fst (accent_of cfg (snd (snd t)))) (snd (accent_of cfg (snd (snd t)))) w"
proof -
  obtain m h s where t: "t = (m, h, s)" by (cases t)
  show ?thesis by (cases s) (simp_all add: t accent_of_def)
qed

lemma out_apply_taskbar:
  "out (apply_taskbar cfg P t w) = out w @
     (if \<not> swca_available P then []
      else if fst (accent_of cfg (snd (snd t))) = ACCENT_NORMAL then
        (if is_normal w (fst (snd t)) = Some True then [] else [SendMessage (fst (snd t)) WM_THEMECHANGED])
      else [SetWindowCompositionAttribute (fst (snd t)) (policy_of cfg (snd (snd t)))])"
  unfolding apply_taskbar_accent out_SetWindowBlur policy_of_def by simp

lemma out_apply_fold:
  "\<exists>effs. out (fold (apply_taskbar cfg P) tbs w) = out w @ effs \<and>
     (swca_available P \<longrightarrow>
        (\<forall>t \<in> set tbs. fst (accent_of cfg (snd (snd t))) \<noteq> ACCENT_NORMAL \<longrightarrow>
           SetWindowCompositionAttribute (fst (snd t)) (policy_of cfg (snd (snd t))) \<in> set effs)) \<and>
     (\<forall>h p. SetWindowCompositionAttribute h p \<in> set effs \<longrightarrow>
        (\<exists>t \<in> set tbs. h = fst (snd t) \<and> p = policy_of cfg (snd (snd t))))"
proof (induction tbs arbitrary: w)
  case Nil
  then show ?case by simp
next
  case (Cons t tbs)
  let ?w1 = "apply_taskbar cfg P t w"
  from Cons [of ?w1] obtain effs where
    e: "out (fold (apply_taskbar cfg P) tbs ?w1) = out ?w1 @ effs"
    and a: "swca_available P \<longrightarrow>
        (\<forall>t \<in> set tbs. fst (accent_of cfg (snd (snd t))) \<noteq> ACCENT_NORMAL \<longrightarrow>
           SetWindowCompositionAttribute (fst (snd t)) (policy_of cfg (snd (snd t))) \<in> set effs)"
    and b: "\<forall>h p. SetWindowCompositionAttribute h p \<in> set effs \<longrightarrow>
        (\<exists>t \<in> set tbs. h = fst (snd t) \<and> p = policy_of cfg (snd (snd t)))"
    by blast
  let ?first = "if \<not> swca_available P then []
      else if fst (accent_of cfg (snd (snd t))) = ACCENT_NORMAL then
        (if is_normal w (fst (snd t)) = Some True then [] else [SendMessage (fst (snd t)) WM_THEMECHANGED])
      else [SetWindowCompositionAttribute (fst (snd t)) (policy_of cfg (snd (snd t)))]"
  have "out (fold (apply_taskbar cfg P) (t # tbs) w) = out w @ (?first @ effs)"
    using e out_apply_taskbar [of cfg P t w] by simp
  moreover have "swca_available P \<longrightarrow>
        (\<forall>t \<in> set (t # tbs). fst (accent_of cfg (snd (snd t))) \<noteq> ACCENT_NORMAL \<longrightarrow>
           SetWindowCompositionAttribute (fst (snd t)) (policy_of cfg (snd (snd t))) \<in> set (?first @ effs))"
    using a by auto
  moreover have "\<forall>h p. SetWindowCompositionAttribute h p \<in> set (?first @ effs) \<longrightarrow>
        (\<exists>t \<in> set (t # tbs). h = fst (snd t) \<and> p = policy_of cfg (snd (snd t)))"
    using b by (auto split: if_splits)
  ultimately show ?case by blast
qed

lemma SetWindowBlur_run:
  "SetWindowBlur P h a c (w\<lparr>run := r\<rparr>) = (SetWindowBlur P h a c w)\<lparr>run := r\<rparr>"
  by (simp add: SetWindowBlur_def emit_def Let_def)

lemma apply_fold_run:
  "fold (apply_taskbar cfg P) tbs (w\<lparr>run := r\<rparr>) = (fold (apply_taskbar cfg P) tbs w)\<lparr>run := r\<rparr>"
  by (induction tbs arbitrary: w) (simp_all add: apply_taskbar_accent SetWindowBlur_run)

text \<open>
  Claim C1, as the code has it. On a host with the accent entry point, for every
  taskbar of the registry whose state maps to the fluent accent, the loop of lines 544
  to 558 submits the fluent accent with the configured colour (red and blue exchanged,
  an opacity of 0 raised to 1); each policy it submits is that of the state of some
  taskbar of the registry; and what it sends does not depend on
  \<^verbatim>\<open>run.fluent_available\<close>.
\<close>

theorem fluent_submitted_as_configured:
  "(swca_available P \<and> t \<in> set (taskbars (run w)) \<and>
      fst (accent_of cfg (snd (snd t))) = ACCENT_ENABLE_FLUENT \<longrightarrow>
        SetWindowCompositionAttribute (fst (snd t)) (policy_of cfg (snd (snd t)))
          \<in> set (drop (length (out w)) (out (apply_taskbars cfg P w)))
        \<and> nAccentState (policy_of cfg (snd (snd t))) = ACCENT_ENABLE_FLUENT)
   \<and> (\<forall>h p. SetWindowCompositionAttribute h p \<in> set (drop (length (out w)) (out (apply_taskbars cfg P w))) \<longrightarrow>
         (\<exists>t \<in> set (taskbars (run w)). h = fst (snd t) \<and> p = policy_of cfg (snd (snd t))))
   \<and> out (apply_taskbars cfg P (w\<lparr>run := (run w)\<lparr>fluent_available := b\<rparr>\<rparr>)) =
       out (apply_taskbars cfg P w)"
proof -
  from out_apply_fold [of cfg P "taskbars (run w)" w] obtain effs where
    e: "out (apply_taskbars cfg P w) = out w @ effs"
    and a: "swca_available P \<longrightarrow>
        (\<forall>t \<in> set (taskbars (run w)). fst (accent_of cfg (snd (snd t))) \<noteq> ACCENT_NORMAL \<longrightarrow>
           SetWindowCompositionAttribute (fst (snd t)) (policy_of cfg (snd (snd t))) \<in> set effs)"
    and b: "\<forall>h p. SetWindowCompositionAttribute h p \<in> set effs \<longrightarrow>
        (\<exists>t \<in> set (taskbars (run w)). h = fst (snd t) \<and> p = policy_of cfg (snd (snd t)))"
    unfolding apply_taskbars_def by blast
  have d: "drop (length (out w)) (out (apply_taskbars cfg P w)) = effs" unfolding e by simp
  have 1: "swca_available P \<and> t \<in> set (taskbars (run w)) \<and>
      fst (accent_of cfg (snd (snd t))) = ACCENT_ENABLE_FLUENT \<longrightarrow>
        SetWindowCompositionAttribute (fst (snd t)) (policy_of cfg (snd (snd t))) \<in> set effs
        \<and> nAccentState (policy_of cfg (snd (snd t))) = ACCENT_ENABLE_FLUENT"
    using a by (auto simp add: policy_of_def fluent_fix_state)
  have 3: "out (apply_taskbars cfg P (w\<lparr>run := (run w)\<lparr>fluent_available := b\<rparr>\<rparr>)) =
       out (apply_taskbars cfg P w)"
    by (simp add: apply_taskbars_def apply_fold_run)
  show ?thesis unfolding d using 1 b 3 by blast
qed


section \<open>The claims on the concrete host\<close>

text \<open>The passes of the concrete host, evaluated.\<close>

lemmas example_defs =
  example_config_def example_host_def example_world_eq initial_world_def

lemmas pass_defs =
  SetTaskbarBlur_def classify_def seq_def EnumWindowsProcess_def IsWindowBlacklisted_def
  OutputBlacklistMatchToLog_def blacklist_match_def TogglePeek_def apply_taskbars_def
  SetWindowBlur_def emit_def reset_states_def swap_color_def fluent_fix_def Let_def
  SW_MAXIMIZE_def SW_SHOWNORMAL_def SW_HIDE_def

lemma example_pass:
  "registry_after (SetTaskbarBlur example_config example_host example_world) =
     Inr [(1, 10, StartMenuOpen), (2, 11, Normal)]"
  by (simp add: registry_after_def pass_defs example_defs)

lemma example_pass_peeking:
  "registry_after (SetTaskbarBlur example_config example_host example_peeking) =
     Inr [(1, 10, Normal), (2, 11, Normal)]"
  by (simp add: registry_after_def pass_defs example_defs example_peeking_def HandleAeroPeekEvent_def)

lemma example_pass_far:
  "SetTaskbarBlur example_config example_host_far example_world = Inl out_of_range"
  by (simp add: pass_defs example_defs example_host_far_def)

lemma example_pass_start_far:
  "SetTaskbarBlur example_config example_host_start_far example_world = Inl out_of_range"
  by (simp add: pass_defs example_defs example_host_start_far_def)

lemma example_apply:
  "out (apply_taskbars example_config example_host example_world) =
    [SetWindowCompositionAttribute 10
       \<lparr>nAccentState = ACCENT_ENABLE_FLUENT, nFlags = 2, nColor = 0x01332211, nAnimationId = 0\<rparr>,
     SetWindowCompositionAttribute 11
       \<lparr>nAccentState = ACCENT_ENABLE_FLUENT, nFlags = 2, nColor = 0x01332211, nAnimationId = 0\<rparr>]"
  by (simp add: pass_defs example_defs)

text \<open>The triggers of the concrete hosts, and the loop on them.\<close>

lemmas trigger_defs =
  triggers.simps IsWindowBlacklisted_def OutputBlacklistMatchToLog_def blacklist_match_def
  emit_def Let_def SW_MAXIMIZE_def SW_SHOWNORMAL_def

lemma example_triggers:
  "triggers example_config example_host (windows example_host) example_world = [20]"
  by (simp add: trigger_defs example_defs)

lemma example_triggers_peeking:
  "triggers example_config example_host (windows example_host) example_peeking = [20]"
  by (simp add: trigger_defs example_defs example_peeking_def HandleAeroPeekEvent_def)

lemma example_triggers_second:
  "triggers example_config example_host_second (windows example_host_second) example_world = [20]"
  by (simp add: trigger_defs example_defs example_host_second_def)

lemma example_distinct: "distinct (map fst (taskbars (run example_world)))"
  by (simp add: example_defs)

lemma example_registered: "monitors_registered example_config example_host example_world"
  unfolding monitors_registered_def example_triggers by (simp add: example_defs)

lemma example_ticks: "ticks_registered [example_tick, example_tick] example_world"
  by (simp add: example_tick_def monitors_registered_def triggers.simps pass_defs example_defs)

lemma example_exit_loop: "main_loop [example_exit_tick] example_world = Left example_left"
  by (simp add: example_left_def example_exit_tick_def pass_defs example_defs)


text \<open>
  Against claim C1 as stated: with \<^verbatim>\<open>run.fluent_available\<close> false and the fluent
  accent configured, both taskbars get the fluent accent, and no blur.
\<close>

theorem fluent_demoted_to_blur_counterexample:
  "swca_available example_host \<and> \<not> fluent_available (run example_world)
   \<and> taskbars (run example_world) = [(1, 10, Normal), (2, 11, Normal)]
   \<and> accent_of example_config Normal = (ACCENT_ENABLE_FLUENT, 0x00112233)
   \<and> out (apply_taskbars example_config example_host example_world) =
      [SetWindowCompositionAttribute 10
         \<lparr>nAccentState = ACCENT_ENABLE_FLUENT, nFlags = 2, nColor = 0x01332211, nAnimationId = 0\<rparr>,
       SetWindowCompositionAttribute 11
         \<lparr>nAccentState = ACCENT_ENABLE_FLUENT, nFlags = 2, nColor = 0x01332211, nAnimationId = 0\<rparr>]
   \<and> SetWindowCompositionAttribute 10
         \<lparr>nAccentState = ACCENT_BLUR, nFlags = 2, nColor = 0x00332211, nAnimationId = 0\<rparr>
       \<notin> set (out (apply_taskbars example_config example_host example_world))"
  unfolding example_apply by (simp add: example_defs accent_of_def)

theorem fluent_submitted_as_configured_witness:
  "swca_available example_host \<and> (1, 10, Normal) \<in> set (taskbars (run example_world))
   \<and> fst (accent_of example_config Normal) = ACCENT_ENABLE_FLUENT
   \<and> SetWindowCompositionAttribute 10
        \<lparr>nAccentState = ACCENT_ENABLE_FLUENT, nFlags = 2, nColor = 0x01332211, nAnimationId = 0\<rparr>
       \<in> set (drop (length (out example_world))
                (out (apply_taskbars example_config example_host example_world)))
   \<and> out (apply_taskbars example_config example_host
            (example_world\<lparr>run := (run example_world)\<lparr>fluent_available := True\<rparr>\<rparr>)) =
       out (apply_taskbars example_config example_host example_world)"
proof -
  have p: "policy_of example_config Normal =
      \<lparr>nAccentState = ACCENT_ENABLE_FLUENT, nFlags = 2, nColor = 0x01332211, nAnimationId = 0\<rparr>"
    by (simp add: policy_of_def accent_of_def example_config_def fluent_fix_def swap_color_def)
  have h: "swca_available example_host \<and> (1, 10, Normal) \<in> set (taskbars (run example_world))
      \<and> fst (accent_of example_config Normal) = ACCENT_ENABLE_FLUENT"
    by (simp add: example_defs accent_of_def)
  show ?thesis
    using fluent_submitted_as_configured [of example_host "(1, 10, Normal)" example_world example_config True]
      h p by simp
qed

text \<open>
  Against claim C2 as stated: Aero Peek active, the three settings on and the Start
  menu open on monitor 1, whose taskbar ends the pass as \<^verbatim>\<open>Normal\<close>.
\<close>

theorem start_menu_outranks_peek_counterexample:
  "DYNAMIC_WS example_config \<and> DYNAMIC_NORMAL_ON_PEEK example_config \<and> DYNAMIC_START example_config
   \<and> peek_active (run example_peeking) \<and> counter example_peeking = 10
   \<and> IsStartVisible example_host \<and> monitor example_host (start_window example_host) = 1
   \<and> registry_after (SetTaskbarBlur example_config example_host example_peeking) =
       Inr [(1, 10, Normal), (2, 11, Normal)]"
  unfolding example_pass_peeking
  by (simp add: example_defs example_peeking_def HandleAeroPeekEvent_def)

theorem peek_reset_overrides_start_witness:
  "10 \<le> counter example_peeking \<and> DYNAMIC_WS example_config \<and> DYNAMIC_NORMAL_ON_PEEK example_config
   \<and> peek_active (run example_peeking)
   \<and> monitors_registered example_config example_host example_peeking
   \<and> registry_after (SetTaskbarBlur example_config example_host example_peeking) =
       Inr [(1, 10, Normal), (2, 11, Normal)]
   \<and> \<not> peek_active (run example_world) \<and> DYNAMIC_START example_config \<and> IsStartVisible example_host
   \<and> distinct (map fst (taskbars (run example_world))) \<and> 10 \<le> counter example_world
   \<and> monitors_registered example_config example_host example_world
   \<and> registry_after (SetTaskbarBlur example_config example_host example_world) =
       Inr [(1, 10, StartMenuOpen), (2, 11, Normal)]
   \<and> monitors_registered example_config example_host_second example_world
   \<and> registry_after (SetTaskbarBlur example_config example_host_second example_world) =
       Inr [(1, 10, StartMenuOpen), (2, 11, WindowMaximised)]"
proof -
  have h: "10 \<le> counter example_peeking \<and> DYNAMIC_WS example_config \<and> DYNAMIC_NORMAL_ON_PEEK example_config
      \<and> peek_active (run example_peeking) \<and> \<not> peek_active (run example_world)
      \<and> DYNAMIC_START example_config \<and> IsStartVisible example_host \<and> 10 \<le> counter example_world
      \<and> taskbars (run example_world) = [(1, 10, Normal), (2, 11, Normal)]"
    by (simp add: example_defs example_peeking_def HandleAeroPeekEvent_def)
  have dp: "distinct (map fst (taskbars (run example_peeking)))"
    by (simp add: example_defs example_peeking_def HandleAeroPeekEvent_def)
  have m: "monitors_registered example_config example_host example_peeking"
    unfolding monitors_registered_def example_triggers_peeking
    by (simp add: example_defs example_peeking_def HandleAeroPeekEvent_def)
  have n2: "monitors_registered example_config example_host_second example_world"
    unfolding monitors_registered_def example_triggers_second
    by (simp add: example_defs example_host_second_def)
  from peek_reset_overrides_start [of example_peeking example_config example_host] m dp h
  obtain w1 where w1: "SetTaskbarBlur example_config example_host example_peeking = Inr w1" by blast
  have a: "\<forall>t \<in> set (taskbars (run w1)). snd (snd t) = Normal"
    using peek_reset_overrides_start [of example_peeking example_config example_host w1] h w1 by blast
  from peek_reset_overrides_start [of example_world example_config example_host]
    example_registered example_distinct h
  obtain w2 where w2: "SetTaskbarBlur example_config example_host example_world = Inr w2" by blast
  have b: "taskbars (run w2) =
      restate (\<lambda>m s. state_after_pass example_config example_host example_world m)
        (taskbars (run example_world))"
    using peek_reset_overrides_start [of example_world example_config example_host w2]
      h w2 example_distinct by blast
  from peek_reset_overrides_start [of example_world example_config example_host_second] n2
    example_distinct h
  obtain w3 where w3: "SetTaskbarBlur example_config example_host_second example_world = Inr w3" by blast
  have c: "taskbars (run w3) =
      restate (\<lambda>m s. state_after_pass example_config example_host_second example_world m)
        (taskbars (run example_world))"
    using peek_reset_overrides_start [of example_world example_config example_host_second w3]
      h w3 example_distinct by blast
  have 1: "taskbars (run w1) = [(1, 10, Normal), (2, 11, Normal)]"
    using example_pass_peeking unfolding w1 by (simp add: registry_after_def)
  have 2: "taskbars (run w2) = [(1, 10, StartMenuOpen), (2, 11, Normal)]"
    unfolding b state_after_pass_def example_triggers using h
    by (simp add: restate_def example_config_def example_host_def)
  have 3: "taskbars (run w3) = [(1, 10, StartMenuOpen), (2, 11, WindowMaximised)]"
    unfolding c state_after_pass_def example_triggers_second using h
    by (simp add: restate_def example_config_def example_host_def example_host_second_def)
  show ?thesis
    using h m n2 w1 w2 w3 a 1 2 3 example_distinct example_registered
    by (simp add: registry_after_def)
qed

text \<open>
  Against claim C6 as stated: a maximised window on a monitor without taskbar ends
  the loop although nothing signalled shutdown, and so does a Start menu on such a
  monitor.
\<close>

lemma example_far_loop: "main_loop [example_far_tick] example_world = Aborted out_of_range"
  using example_pass_far by (simp add: example_far_tick_def example_defs)

theorem tick_errors_contained_counterexample:
  "is_running (run example_world) \<and> msgs example_far_tick = []
   \<and> main_loop [example_far_tick] example_world = Aborted out_of_range
   \<and> SetTaskbarBlur example_config example_host_start_far example_world = Inl out_of_range
   \<and> Terminate example_world = EXIT_FAILURE"
  unfolding example_far_loop example_pass_start_far Terminate_def
  by (simp add: example_defs example_far_tick_def)

theorem tick_completes_when_registered_witness:
  "distinct (map fst (taskbars (run example_world))) \<and> 10 \<le> counter example_world
   \<and> monitors_registered example_config example_host example_world
   \<and> registry_after (SetTaskbarBlur example_config example_host example_world) =
       Inr [(1, 10, StartMenuOpen), (2, 11, Normal)]
   \<and> is_running (run example_world) \<and> msgs example_tick = []
   \<and> ticks_registered [example_tick, example_tick] example_world
   \<and> still_spinning (main_loop [example_tick, example_tick] example_world)
   \<and> \<not> monitors_registered example_config example_host_far example_world
   \<and> \<not> ticks_registered [example_far_tick] example_world
   \<and> main_loop [example_far_tick] example_world = Aborted out_of_range
   \<and> signals_shutdown IDM_EXIT
   \<and> main_loop [example_exit_tick] example_world = Left example_left
   \<and> is_running (run example_left) = False"
proof -
  have h: "distinct (map fst (taskbars (run example_world))) \<and> 10 \<le> counter example_world
      \<and> is_running (run example_world) \<and> msgs example_tick = [] \<and> signals_shutdown IDM_EXIT"
    by (simp add: example_defs example_tick_def)
  have q: "\<forall>i \<in> set [example_tick, example_tick]. \<forall>m \<in> set (msgs i). \<not> signals_shutdown m"
    by (simp add: example_tick_def)
  from tick_completes_when_registered [of example_world example_config example_host
      "[example_tick, example_tick]"] h q example_ticks
  obtain w3 where s: "main_loop [example_tick, example_tick] example_world = Spinning w3"
    and r: "is_running (run w3)" by blast
  have f: "\<not> monitors_registered example_config example_host_far example_world"
    using tick_completes_when_registered [of example_world example_config example_host_far]
      h example_pass_far by blast
  have g: "\<not> ticks_registered [example_far_tick] example_world"
    using tick_completes_when_registered [of example_world _ _ "[example_far_tick]"]
      h example_far_loop by blast
  have l: "\<not> is_running (run example_left)"
    using tick_completes_when_registered [of example_world _ _ "[example_exit_tick]" _ example_left]
      example_exit_loop by blast
  show ?thesis
    using h example_registered example_pass example_ticks s r f g l example_far_loop example_exit_loop
    by (simp add: still_spinning_def)
qed



end
